theory Spec2Isabelle
  imports Complex_Main
begin

section \<open>Data model of the game server (index.js)\<close>

text \<open>
  Identifiers are JavaScript strings. A field that is absent from an inbound payload is
  represented by the empty string: the handlers test these fields for truthiness only, and
  the empty string, \<open>undefined\<close> and \<open>null\<close> are all falsy.
\<close>

text \<open>
  The plain objects that the source uses as dictionaries (\<open>game.scores\<close>, \<open>game.moves\<close>, the
  \<open>scores\<close> and \<open>rpChange\<close> of the payloads) are kept as maps from player ids. A player id
  that is the name of a member of \<open>Object.prototype\<close> would read as present in such an
  object; these ids are outside the model.
\<close>

type_synonym socketId = string
type_synonym odId = string
type_synonym gameId = string

definition truthy :: "string \<Rightarrow> bool" where
  "truthy s = (s \<noteq> [])"

text \<open>An optional identifier (\<open>null\<close>/\<open>undefined\<close> is \<open>None\<close>) tested with \<open>!x\<close>.\<close>

definition truthyO :: "string option \<Rightarrow> bool" where
  "truthyO x = (case x of None \<Rightarrow> False | Some s \<Rightarrow> truthy s)"

text \<open>\<open>x || ''\<close> on an optional identifier.\<close>

definition orEmpty :: "string option \<Rightarrow> string" where
  "orEmpty x = (case x of None \<Rightarrow> [] | Some s \<Rightarrow> s)"

record roundInfo =
  r_round :: nat
  r_stat :: string
  r_isGKRound :: bool

record queueEntry =
  q_socketId :: socketId
  q_odId :: odId
  q_username :: string

record player =
  p_odId :: odId
  p_username :: string
  p_socketId :: socketId
  p_accepted :: bool
  p_score :: nat
  p_rp :: int
  p_connected :: bool

text \<open>
  A submitted move. \<open>cardId\<close> and \<open>statValue\<close> passed the \<open>typeof x === 'number'\<close> test;
  the numbers that reach the server through the JSON transport are finite, so they are
  compared as reals.
\<close>

record move =
  m_odId :: odId
  m_cardId :: real
  m_statValue :: real
  m_cardData :: "string option"

text \<open>
  The handle stored in \<open>game.disconnectTimer\<close>. The callback closes over the index of the
  disconnected player; \<open>Timer idx True\<close> is a timeout that is still pending, \<open>Timer idx False\<close>
  is the handle of a timeout that has already run (the source never resets the field after
  the callback ran). A cleared timeout is dropped from the field, so it can never run.
\<close>

datatype timer = Timer nat bool

text \<open>
  \<open>game.players\<close> is built once in \<open>tryMatchPlayers\<close> as a two-element array and is never
  resized, so it is kept as the two fields \<open>player0\<close> and \<open>player1\<close>.
\<close>

record game =
  g_id :: gameId
  player0 :: player
  player1 :: player
  scores :: "odId \<rightharpoonup> nat"
  usedCards :: "real list"
  currentRound :: roundInfo
  roundNumber :: nat
  maxRounds :: nat
  moves :: "odId \<rightharpoonup> move"
  isStarted :: bool
  isFinished :: bool
  disconnectTimer :: "timer option"
  disconnectedPlayerOdId :: "odId option"

subsection \<open>Outbound payloads\<close>

record roundCompletedPayload =
  rc_round :: nat
  rc_stat :: string
  rc_isGKRound :: bool
  rc_moves :: "odId \<rightharpoonup> move"
  rc_roundWinner :: "odId option"
  rc_damage :: nat
  rc_scores :: "odId \<rightharpoonup> nat"
  rc_isGameOver :: bool
  rc_finalWinner :: "odId option"
  rc_nextRound :: "roundInfo option"

record gameEndedPayload =
  ge_gameId :: gameId
  ge_reason :: string
  ge_winner :: string
  ge_loser :: string
  ge_scores :: "odId \<rightharpoonup> nat"
  ge_rpChange :: "odId \<rightharpoonup> int"
  ge_disconnectedPlayer :: "(odId \<times> string) option"

datatype msg =
    GameError string string "gameId option"
  | QueueJoined nat nat
  | QueueLeft
  | MatchFound gameId odId string bool
  | GameStarted gameId "(odId \<times> string) list" roundInfo
  | GameState gameId roundInfo "odId \<rightharpoonup> nat" "real list"
  | OpponentDisconnected string
  | GameJoined gameId odId nat
  | MoveError string string
  | MoveReceived real
  | OpponentMoved
  | RoundCompleted roundCompletedPayload
  | GameEnded gameEndedPayload

text \<open>An emission: the socket (room) it is sent to, and the event with its payload.\<close>

type_synonym out = "socketId \<times> msg"

subsection \<open>Process-wide state\<close>

text \<open>
  The queue, the games map and the four helper maps of the source. Two parts of the
  environment are state of libraries the source calls: \<open>sockets\<close> is \<open>io.sockets.sockets\<close>,
  the set of live connections, and \<open>uuidCount\<close> counts the calls of \<open>uuidv4\<close>.
\<close>

record state =
  queue :: "queueEntry list"
  games :: "gameId \<rightharpoonup> game"
  socketToUser :: "socketId \<rightharpoonup> odId"
  userToSocket :: "odId \<rightharpoonup> socketId"
  socketToGameId :: "socketId \<rightharpoonup> gameId"
  userToGameId :: "odId \<rightharpoonup> gameId"
  sockets :: "socketId set"
  uuidCount :: nat

definition initialState :: state where
  "initialState = \<lparr> queue = [], games = Map.empty, socketToUser = Map.empty,
     userToSocket = Map.empty, socketToGameId = Map.empty, userToGameId = Map.empty,
     sockets = {}, uuidCount = 0 \<rparr>"

text \<open>
  \<open>uuidv4\<close> is a library call. It is modelled as a supply of pairwise different, non-empty
  strings: the n-th call returns \<open>uuidv4 n\<close>.
\<close>

definition uuidv4 :: "nat \<Rightarrow> gameId" where
  "uuidv4 n = CHR ''g'' # replicate n CHR ''+''"

definition DISCONNECT_GRACE_MS :: nat where "DISCONNECT_GRACE_MS = 30000"
definition MAX_ROUNDS :: nat where "MAX_ROUNDS = 5"
definition RP_WIN :: int where "RP_WIN = 20"
definition RP_LOSS :: int where "RP_LOSS = - 15"
definition RP_FORFEIT_LOSS :: int where "RP_FORFEIT_LOSS = - 25"
definition RP_OPP_DISCONNECT_WIN :: int where "RP_OPP_DISCONNECT_WIN = 25"

section \<open>Game round / logic helpers\<close>

definition roundStats :: "roundInfo list" where
  "roundStats =
    [ \<lparr> r_round = 1, r_stat = ''pace'', r_isGKRound = False \<rparr>,
      \<lparr> r_round = 2, r_stat = ''shooting'', r_isGKRound = False \<rparr>,
      \<lparr> r_round = 3, r_stat = ''passing'', r_isGKRound = False \<rparr>,
      \<lparr> r_round = 4, r_stat = ''gk_diving'', r_isGKRound = True \<rparr>,
      \<lparr> r_round = 5, r_stat = ''dribbling'', r_isGKRound = False \<rparr>,
      \<lparr> r_round = 6, r_stat = ''defending'', r_isGKRound = False \<rparr>,
      \<lparr> r_round = 7, r_stat = ''physical'', r_isGKRound = False \<rparr> ]"

text \<open>
  The source is only called with \<open>roundNumber \<ge> 1\<close> (with 1, and with an incremented
  round number), where \<open>(roundNumber - 1) % 7\<close> is an index into the table.
\<close>

definition getRoundInfo :: "nat \<Rightarrow> roundInfo" where
  "getRoundInfo n = roundStats ! ((n - 1) mod length roundStats)"

definition createInitialRound :: roundInfo where
  "createInitialRound = getRoundInfo 1"

definition getOpponentIndex :: "nat \<Rightarrow> nat" where
  "getOpponentIndex playerIndex = (if playerIndex = 0 then 1 else 0)"

text \<open>\<open>game.players[idx]\<close> and the assignment to one of its fields.\<close>

definition playerAt :: "game \<Rightarrow> nat \<Rightarrow> player" where
  "playerAt g idx = (if idx = 0 then player0 g else player1 g)"

definition setPlayerAt :: "game \<Rightarrow> nat \<Rightarrow> player \<Rightarrow> game" where
  "setPlayerAt g idx p = (if idx = 0 then g\<lparr>player0 := p\<rparr> else g\<lparr>player1 := p\<rparr>)"

text \<open>
  \<open>findIndex\<close> over the two players; \<open>-1\<close> is \<open>None\<close>. The caller may pass \<open>undefined\<close>
  (an unknown socket), which equals no player's id.
\<close>

definition getPlayerIndex :: "game \<Rightarrow> odId option \<Rightarrow> nat option" where
  "getPlayerIndex g od =
     (case od of
        None \<Rightarrow> None
      | Some x \<Rightarrow> if p_odId (player0 g) = x then Some 0
                  else if p_odId (player1 g) = x then Some 1
                  else None)"

definition getOpponentOdId :: "game \<Rightarrow> odId \<Rightarrow> odId option" where
  "getOpponentOdId g od =
     (case getPlayerIndex g (Some od) of
        None \<Rightarrow> None
      | Some idx \<Rightarrow> Some (p_odId (playerAt g (getOpponentIndex idx))))"

definition calculateRpChange :: "odId option \<Rightarrow> odId option \<Rightarrow> string \<Rightarrow> (odId \<rightharpoonup> int)" where
  "calculateRpChange winnerOdId loserOdId reason =
     (if \<not> truthyO winnerOdId \<or> \<not> truthyO loserOdId then Map.empty
      else if reason = ''forfeit''
        then [orEmpty winnerOdId \<mapsto> RP_WIN, orEmpty loserOdId \<mapsto> RP_FORFEIT_LOSS]
      else if reason = ''opponent-disconnected''
        then [orEmpty winnerOdId \<mapsto> RP_OPP_DISCONNECT_WIN, orEmpty loserOdId \<mapsto> RP_FORFEIT_LOSS]
      else [orEmpty winnerOdId \<mapsto> RP_WIN, orEmpty loserOdId \<mapsto> RP_LOSS])"

definition computeScoresFromGame :: "game \<Rightarrow> (odId \<rightharpoonup> nat)" where
  "computeScoresFromGame g =
     [p_odId (player0 g) \<mapsto> p_score (player0 g), p_odId (player1 g) \<mapsto> p_score (player1 g)]"

text \<open>
  The recurring loop \<open>game.players.forEach(p => if (p.socketId && io.sockets.sockets.get(p.socketId)) io.to(p.socketId).emit(...))\<close>.
\<close>

definition emitToPlayers :: "state \<Rightarrow> game \<Rightarrow> msg \<Rightarrow> out list" where
  "emitToPlayers s g m =
     concat (map (\<lambda>p. if truthy (p_socketId p) \<and> p_socketId p \<in> sockets s
                       then [(p_socketId p, m)] else [])
                 [player0 g, player1 g])"

definition emitGameState :: "state \<Rightarrow> game \<Rightarrow> out list" where
  "emitGameState s g =
     emitToPlayers s g
       (GameState (g_id g) (currentRound g) (computeScoresFromGame g) (usedCards g))"

section \<open>Termination of a game\<close>

text \<open>
  \<open>finishGame(game, {reason, winnerOdId, loserOdId, disconnectedPlayerOdId})\<close>. The game
  object is the one stored under its id in \<open>games\<close>; a missing game is the \<open>!game\<close> case.
\<close>

text \<open>
  The comparison of \<open>p0.score\<close> and \<open>p1.score\<close> that \<open>resolveRoundIfReady\<close> makes for
  \<open>finalWinner\<close> and \<open>finishGame\<close> for a missing winner; \<open>None\<close> is the draw.
\<close>

definition winnerByScore :: "game \<Rightarrow> odId option" where
  "winnerByScore g =
     (if p_score (player0 g) > p_score (player1 g) then Some (p_odId (player0 g))
      else if p_score (player1 g) > p_score (player0 g) then Some (p_odId (player1 g))
      else None)"

text \<open>The if-chain of \<open>finishGame\<close> that sets \<open>reasonTag\<close>, with its fallback branch.\<close>

definition reasonTagOf :: "string \<Rightarrow> string" where
  "reasonTagOf reason =
     (if reason = ''opponent-disconnected'' then ''opponent-disconnected''
      else if reason = ''forfeit'' then ''forfeit''
      else ''forfeit'')"

text \<open>The last loop of \<open>finishGame\<close>, which deletes the players' entries of the helper maps.\<close>

definition cleanHelperMaps :: "state \<Rightarrow> game \<Rightarrow> state" where
  "cleanHelperMaps s g =
     fold (\<lambda>p st.
             (let st1 = (if truthy (p_socketId p)
                         then st\<lparr>socketToGameId := (socketToGameId st)(p_socketId p := None)\<rparr>
                         else st)
              in st1\<lparr>userToGameId := (userToGameId st1)(p_odId p := None)\<rparr>))
          [player0 g, player1 g] s"

text \<open>The winner and the loser as \<open>finishGame\<close> settles them before it builds the payload.\<close>

definition settledWinner :: "game \<Rightarrow> string \<Rightarrow> odId option \<Rightarrow> odId option" where
  "settledWinner g reason winnerOdId =
     (if \<not> truthyO winnerOdId \<and> reason = ''normal'' then winnerByScore g else winnerOdId)"

definition settledLoser :: "game \<Rightarrow> odId option \<Rightarrow> odId option \<Rightarrow> odId option" where
  "settledLoser g winner loserOdId =
     (if \<not> truthyO loserOdId \<and> truthyO winner
      then (case find (\<lambda>i. i \<noteq> orEmpty winner) [p_odId (player0 g), p_odId (player1 g)] of
              None \<Rightarrow> None
            | Some i \<Rightarrow> if truthy i then Some i else None)
      else loserOdId)"

definition gameEndedPayloadOf ::
  "game \<Rightarrow> string \<Rightarrow> odId option \<Rightarrow> odId option \<Rightarrow> odId option \<Rightarrow> gameEndedPayload" where
  "gameEndedPayloadOf g reason winnerOdId loserOdId disconnectedPlayerOdId' =
     (let scores' = computeScoresFromGame g;
          winner = settledWinner g reason winnerOdId;
          loser = settledLoser g winner loserOdId;
          rpChange = calculateRpChange winner loser reason;
          reasonTag = reasonTagOf reason;
          disconnectedPlayer =
            (if truthyO disconnectedPlayerOdId'
             then (case find (\<lambda>pl. p_odId pl = orEmpty disconnectedPlayerOdId')
                             [player0 g, player1 g] of
                     None \<Rightarrow> None
                   | Some p \<Rightarrow> Some (p_odId p, p_username p))
             else None)
      in \<lparr> ge_gameId = g_id g, ge_reason = reasonTag,
           ge_winner = orEmpty winner, ge_loser = orEmpty loser,
           ge_scores = scores', ge_rpChange = rpChange,
           ge_disconnectedPlayer = disconnectedPlayer \<rparr>)"

definition finishGame ::
  "state \<Rightarrow> gameId \<Rightarrow> string \<Rightarrow> odId option \<Rightarrow> odId option \<Rightarrow> odId option \<Rightarrow> state \<times> out list" where
  "finishGame s gid reason winnerOdId loserOdId disconnectedPlayerOdId' =
     (case games s gid of
        None \<Rightarrow> (s, [])
      | Some g0 \<Rightarrow>
          if isFinished g0 then (s, [])
          else
            let g = g0\<lparr>isFinished := True\<rparr>;
                payload = gameEndedPayloadOf g reason winnerOdId loserOdId disconnectedPlayerOdId';
                emitted = emitToPlayers s g (GameEnded payload);
                g' = g\<lparr>disconnectTimer := None\<rparr>;
                s' = cleanHelperMaps (s\<lparr>games := (games s)(gid \<mapsto> g')\<rparr>) g'
            in (s', emitted))"

section \<open>Matchmaking helpers\<close>

text \<open>\<open>Array.prototype.findIndex\<close>, with \<open>-1\<close> as \<open>None\<close>.\<close>

fun findIndex :: "('a \<Rightarrow> bool) \<Rightarrow> 'a list \<Rightarrow> nat option" where
  "findIndex P [] = None"
| "findIndex P (x # xs) =
     (if P x then Some 0 else (case findIndex P xs of None \<Rightarrow> None | Some i \<Rightarrow> Some (Suc i)))"

text \<open>\<open>xs.splice(idx, 1)\<close> for an index inside the array.\<close>

fun splice1 :: "nat \<Rightarrow> 'a list \<Rightarrow> 'a list" where
  "splice1 i [] = []"
| "splice1 0 (x # xs) = xs"
| "splice1 (Suc i) (x # xs) = x # splice1 i xs"

definition removeFromQueueBySocket :: "state \<Rightarrow> socketId \<Rightarrow> state" where
  "removeFromQueueBySocket s sid =
     (case findIndex (\<lambda>p. q_socketId p = sid) (queue s) of
        None \<Rightarrow> s
      | Some idx \<Rightarrow> s\<lparr>queue := splice1 idx (queue s)\<rparr>)"

text \<open>The player and game objects that \<open>tryMatchPlayers\<close> builds for a pair of queue entries.\<close>

definition newPlayer :: "queueEntry \<Rightarrow> player" where
  "newPlayer p = \<lparr> p_odId = q_odId p, p_username = q_username p, p_socketId = q_socketId p,
                   p_accepted = False, p_score = 0, p_rp = 0, p_connected = True \<rparr>"

definition newGame :: "gameId \<Rightarrow> queueEntry \<Rightarrow> queueEntry \<Rightarrow> game" where
  "newGame gameId p1 p2 =
     \<lparr> g_id = gameId, player0 = newPlayer p1, player1 = newPlayer p2,
       scores = [q_odId p1 \<mapsto> 0, q_odId p2 \<mapsto> 0],
       usedCards = [], currentRound = createInitialRound, roundNumber = 1,
       maxRounds = MAX_ROUNDS, moves = Map.empty, isStarted = False, isFinished = False,
       disconnectTimer = None, disconnectedPlayerOdId = None \<rparr>"

text \<open>One turn of the loop body of \<open>tryMatchPlayers\<close>, for the two entries shifted off the queue.\<close>

definition matchPair :: "state \<Rightarrow> queueEntry \<Rightarrow> queueEntry \<Rightarrow> state \<times> out list" where
  "matchPair s p1 p2 =
     (let gameId = uuidv4 (uuidCount s);
          s1 = s\<lparr>uuidCount := Suc (uuidCount s)\<rparr>;
          s2 = s1\<lparr>games := (games s1)(gameId \<mapsto> newGame gameId p1 p2)\<rparr>;
          s3 = s2\<lparr>socketToGameId :=
                    (socketToGameId s2)(q_socketId p1 \<mapsto> gameId, q_socketId p2 \<mapsto> gameId)\<rparr>;
          s4 = s3\<lparr>userToGameId := (userToGameId s3)(q_odId p1 \<mapsto> gameId, q_odId p2 \<mapsto> gameId)\<rparr>
      in (s4, [(q_socketId p1, MatchFound gameId (q_odId p2) (q_username p2) True),
               (q_socketId p2, MatchFound gameId (q_odId p1) (q_username p1) False)]))"

text \<open>
  The loop \<open>while (queue.length >= 2)\<close>: the two oldest entries are shifted off the queue
  and paired (\<open>matchPair\<close> itself leaves the queue alone), then the loop goes on.
\<close>

function tryMatchPlayers :: "state \<Rightarrow> state \<times> out list" where
  "tryMatchPlayers s =
     (case queue s of
        p1 # p2 # rest \<Rightarrow>
          (let (s1, out1) = matchPair (s\<lparr>queue := rest\<rparr>) p1 p2;
               (s2, out2) = tryMatchPlayers (s1\<lparr>queue := rest\<rparr>)
           in (s2, out1 @ out2))
      | _ \<Rightarrow> (s, []))"
  by pat_completeness auto
termination
  by (relation "measure (\<lambda>s. length (queue s))") auto

section \<open>Game start / state emit\<close>

definition maybeStartGame :: "state \<Rightarrow> gameId \<Rightarrow> state \<times> out list" where
  "maybeStartGame s gid =
     (case games s gid of
        None \<Rightarrow> (s, [])
      | Some g \<Rightarrow>
          if isStarted g \<or> isFinished g then (s, [])
          else if \<not> (p_accepted (player0 g) \<and> p_accepted (player1 g)) then (s, [])
          else
            let g1 = g\<lparr>isStarted := True\<rparr>;
                s1 = s\<lparr>games := (games s)(gid \<mapsto> g1)\<rparr>;
                gameStartedPayload =
                  GameStarted (g_id g1)
                    [(p_odId (player0 g1), p_username (player0 g1)),
                     (p_odId (player1 g1), p_username (player1 g1))]
                    (currentRound g1)
            in (s1, emitToPlayers s1 g1 gameStartedPayload @ emitGameState s1 g1))"

section \<open>Round resolution\<close>

text \<open>
  The parts of \<open>resolveRoundIfReady\<close> in the order of the source: the round winner by the
  comparison of the two stat values, the point for the winner, and the used cards.
\<close>

definition roundWinnerOf :: "game \<Rightarrow> move \<Rightarrow> move \<Rightarrow> odId option" where
  "roundWinnerOf g moveA moveB =
     (if m_statValue moveA = m_statValue moveB then None
      else if m_statValue moveA > m_statValue moveB then Some (p_odId (player0 g))
      else Some (p_odId (player1 g)))"

definition addScore :: "game \<Rightarrow> odId option \<Rightarrow> game" where
  "addScore g roundWinnerOdId =
     (if truthyO roundWinnerOdId
      then (case getPlayerIndex g roundWinnerOdId of
              None \<Rightarrow> g
            | Some winnerIdx \<Rightarrow>
                let p = playerAt g winnerIdx;
                    g1 = setPlayerAt g winnerIdx (p\<lparr>p_score := p_score p + 1\<rparr>)
                in g1\<lparr>scores := (scores g1)(orEmpty roundWinnerOdId \<mapsto> p_score (playerAt g1 winnerIdx))\<rparr>)
      else g)"

definition updateUsedCards :: "game \<Rightarrow> game" where
  "updateUsedCards g =
     g\<lparr>usedCards :=
         fold (\<lambda>i used. case moves g i of
                           None \<Rightarrow> used
                         | Some mv \<Rightarrow> if m_cardId mv \<in> set used then used else used @ [m_cardId mv])
              [p_odId (player0 g), p_odId (player1 g)] (usedCards g)\<rparr>"

definition resolveRoundIfReady :: "state \<Rightarrow> gameId \<Rightarrow> state \<times> out list" where
  "resolveRoundIfReady s gid =
     (case games s gid of
        None \<Rightarrow> (s, [])
      | Some g0 \<Rightarrow>
          if isFinished g0 then (s, [])
          else
            (case (moves g0 (p_odId (player0 g0)), moves g0 (p_odId (player1 g0))) of
               (Some moveA, Some moveB) \<Rightarrow>
                 let roundWinnerOdId = roundWinnerOf g0 moveA moveB;
                     g1 = addScore g0 roundWinnerOdId;
                     g2 = updateUsedCards g1;
                     scores' = computeScoresFromGame g2;
                     isGameOver = (roundNumber g2 \<ge> maxRounds g2);
                     finalWinner = (if isGameOver then winnerByScore g2 else None);
                     g3 = (if \<not> isGameOver
                           then g2\<lparr>roundNumber := roundNumber g2 + 1,
                                   currentRound := getRoundInfo (roundNumber g2 + 1)\<rparr>
                           else g2);
                     nextRound = (if \<not> isGameOver then Some (currentRound g3) else None);
                     roundPayload =
                       \<lparr> rc_round = r_round (currentRound g3),
                         rc_stat = r_stat (currentRound g3),
                         rc_isGKRound = r_isGKRound (currentRound g3),
                         rc_moves = [p_odId (player0 g0) \<mapsto> moveA, p_odId (player1 g0) \<mapsto> moveB],
                         rc_roundWinner = roundWinnerOdId,
                         rc_damage = 0,
                         rc_scores = scores',
                         rc_isGameOver = isGameOver,
                         rc_finalWinner = finalWinner,
                         rc_nextRound = nextRound \<rparr>;
                     emitted = emitToPlayers s g3 (RoundCompleted roundPayload);
                     g4 = g3\<lparr>moves := Map.empty\<rparr>;
                     s1 = s\<lparr>games := (games s)(gid \<mapsto> g4)\<rparr>
                 in if isGameOver
                    then (let (s2, out2) = finishGame s1 gid ''normal'' finalWinner None None
                          in (s2, emitted @ out2))
                    else (s1, emitted @ emitGameState s1 g4)
             | _ \<Rightarrow> (s, [])))"

section \<open>Socket events\<close>

text \<open>
  Each handler takes the id of the socket it is registered on and the fields of the
  payload, and returns the new state with the emissions in order.
\<close>

definition onDisconnect :: "state \<Rightarrow> socketId \<Rightarrow> state \<times> out list" where
  "onDisconnect s0 sid =
     (let sq = removeFromQueueBySocket s0 sid;
          od = socketToUser sq sid;
          gameId = socketToGameId sq sid;
          s1 = sq\<lparr>socketToUser := (socketToUser sq)(sid := None),
                  socketToGameId := (socketToGameId sq)(sid := None)\<rparr>;
          s = (if truthyO od then s1\<lparr>userToSocket := (userToSocket s1)(orEmpty od := None)\<rparr> else s1)
      in if \<not> truthyO gameId then (s, [])
         else (case games s (orEmpty gameId) of
                 None \<Rightarrow> (s, [])
               | Some g \<Rightarrow>
                   if isFinished g then (s, [])
                   else (case getPlayerIndex g od of
                           None \<Rightarrow> (s, [])
                         | Some idx \<Rightarrow>
                             let g1 = setPlayerAt g idx ((playerAt g idx)\<lparr>p_connected := False\<rparr>);
                                 player = playerAt g1 idx;
                                 opponent = playerAt g1 (getOpponentIndex idx);
                                 notify = (if truthy (p_socketId opponent) \<and> p_socketId opponent \<in> sockets s
                                           then [(p_socketId opponent, OpponentDisconnected (p_username player))]
                                           else []);
                                 g2 = g1\<lparr>disconnectedPlayerOdId := Some (p_odId player)\<rparr>;
                                 g3 = g2\<lparr>disconnectTimer := Some (Timer idx True)\<rparr>
                             in (s\<lparr>games := (games s)(orEmpty gameId \<mapsto> g3)\<rparr>, notify))))"

text \<open>
  The callback passed to \<open>setTimeout\<close>, run when the grace period (\<open>DISCONNECT_GRACE_MS\<close>) of
  the pending timer of game \<open>gid\<close> has elapsed. Only the handle stored in the game can be
  pending: the handler clears the stored handle before it arms a new one. The callback
  closes over the game object, which stays under its id in \<open>games\<close> for good.
\<close>

definition onTimerFire :: "state \<Rightarrow> gameId \<Rightarrow> state \<times> out list" where
  "onTimerFire s gid =
     (case games s gid of
        None \<Rightarrow> (s, [])
      | Some g \<Rightarrow>
          (case disconnectTimer g of
             Some (Timer idx True) \<Rightarrow>
               let g1 = g\<lparr>disconnectTimer := Some (Timer idx False)\<rparr>;
                   s1 = s\<lparr>games := (games s)(gid \<mapsto> g1)\<rparr>;
                   player = playerAt g1 idx;
                   opponent = playerAt g1 (getOpponentIndex idx);
                   stillDisconnected = (\<not> p_connected (playerAt g1 idx))
               in if stillDisconnected \<and> \<not> isFinished g1
                  then finishGame s1 gid ''opponent-disconnected''
                         (Some (p_odId opponent)) (Some (p_odId player)) (Some (p_odId player))
                  else (s1, [])
           | _ \<Rightarrow> (s, [])))"

definition onJoinQueue :: "state \<Rightarrow> socketId \<Rightarrow> odId \<Rightarrow> string \<Rightarrow> state \<times> out list" where
  "onJoinQueue s sid od uname =
     (if \<not> truthy od \<or> \<not> truthy uname
      then (s, [(sid, GameError ''Missing odId or username'' ''INVALID_QUEUE_PAYLOAD'' None)])
      else
        let s1 = s\<lparr>socketToUser := (socketToUser s)(sid \<mapsto> od),
                   userToSocket := (userToSocket s)(od \<mapsto> sid)\<rparr>;
            s2 = removeFromQueueBySocket s1 sid;
            s3 = s2\<lparr>queue := queue s2 @ [\<lparr> q_socketId = sid, q_odId = od, q_username = uname \<rparr>]\<rparr>;
            position = (case findIndex (\<lambda>p. q_socketId p = sid) (queue s3) of
                          None \<Rightarrow> 0 | Some i \<Rightarrow> i + 1);
            queueSize = length (queue s3);
            (s4, out4) = tryMatchPlayers s3
        in (s4, (sid, QueueJoined position queueSize) # out4))"

definition onLeaveQueue :: "state \<Rightarrow> socketId \<Rightarrow> state \<times> out list" where
  "onLeaveQueue s sid = (removeFromQueueBySocket s sid, [(sid, QueueLeft)])"

definition onPlayerAccepted :: "state \<Rightarrow> socketId \<Rightarrow> gameId \<Rightarrow> state \<times> out list" where
  "onPlayerAccepted s sid gameId =
     (if \<not> truthy gameId then (s, [])
      else (case games s gameId of
              None \<Rightarrow> (s, [(sid, GameError ''Game not found'' ''GAME_NOT_FOUND'' (Some gameId))])
            | Some g \<Rightarrow>
                if isFinished g
                then (s, [(sid, GameError ''Game not found'' ''GAME_NOT_FOUND'' (Some gameId))])
                else
                  let od = socketToUser s sid in
                  if \<not> truthyO od then (s, [])
                  else (case getPlayerIndex g od of
                          None \<Rightarrow> (s, [])
                        | Some idx \<Rightarrow>
                            let g1 = setPlayerAt g idx ((playerAt g idx)\<lparr>p_accepted := True\<rparr>)
                            in maybeStartGame (s\<lparr>games := (games s)(gameId \<mapsto> g1)\<rparr>) gameId)))"

definition onJoinGame ::
  "state \<Rightarrow> socketId \<Rightarrow> gameId \<Rightarrow> odId \<Rightarrow> string \<Rightarrow> state \<times> out list" where
  "onJoinGame s0 sid gameId od uname =
     (if \<not> truthy gameId \<or> \<not> truthy od
      then (s0, [(sid, GameError ''Missing gameId or odId'' ''INVALID_JOIN_GAME_PAYLOAD''
                        (if truthy gameId then Some gameId else None))])
      else (case games s0 gameId of
              None \<Rightarrow> (s0, [(sid, GameError ''Game not found'' ''GAME_NOT_FOUND'' (Some gameId))])
            | Some g \<Rightarrow>
                if isFinished g
                then (s0, [(sid, GameError ''Game not found'' ''GAME_NOT_FOUND'' (Some gameId))])
                else
                  let s = s0\<lparr>socketToUser := (socketToUser s0)(sid \<mapsto> od),
                             userToSocket := (userToSocket s0)(od \<mapsto> sid),
                             socketToGameId := (socketToGameId s0)(sid \<mapsto> gameId),
                             userToGameId := (userToGameId s0)(od \<mapsto> gameId)\<rparr>
                  in (case getPlayerIndex g (Some od) of
                        None \<Rightarrow>
                          (s, [(sid, GameError ''Player not part of this game'' ''NOT_IN_GAME''
                                       (Some gameId))])
                      | Some idx \<Rightarrow>
                          let g1 = (if truthy uname
                                    then setPlayerAt g idx ((playerAt g idx)\<lparr>p_username := uname\<rparr>)
                                    else g);
                              g2 = setPlayerAt g1 idx ((playerAt g1 idx)\<lparr>p_socketId := sid\<rparr>);
                              g3 = setPlayerAt g2 idx ((playerAt g2 idx)\<lparr>p_connected := True\<rparr>);
                              s1 = s\<lparr>games := (games s)(gameId \<mapsto> g3)\<rparr>;
                              joined = [(sid, GameJoined gameId od idx)]
                          in if isStarted g3 \<and> \<not> isFinished g3
                             then (s1, joined @ emitGameState s1 g3)
                             else (s1, joined))))"

definition onLeaveGame :: "state \<Rightarrow> socketId \<Rightarrow> gameId \<Rightarrow> state \<times> out list" where
  "onLeaveGame s sid gameId =
     (if \<not> truthy gameId then (s, [])
      else (case games s gameId of
              None \<Rightarrow> (s, [])
            | Some g \<Rightarrow>
                if isFinished g then (s, [])
                else
                  let od = socketToUser s sid in
                  if \<not> truthyO od then (s, [])
                  else (case getPlayerIndex g od of
                          None \<Rightarrow> (s, [])
                        | Some idx \<Rightarrow>
                            let opponentOdId = getOpponentOdId g (orEmpty od)
                            in finishGame s gameId ''forfeit'' opponentOdId od None)))"

text \<open>
  \<open>cardId\<close> and \<open>statValue\<close> are \<open>None\<close> when the field is absent or not of type number.
\<close>

definition onSubmitMove ::
  "state \<Rightarrow> socketId \<Rightarrow> gameId \<Rightarrow> odId \<Rightarrow> real option \<Rightarrow> real option \<Rightarrow> string option
     \<Rightarrow> state \<times> out list" where
  "onSubmitMove s sid gameId od cardId statValue cardData =
     (case (cardId, statValue) of
        (Some cid, Some sv) \<Rightarrow>
          if \<not> truthy gameId \<or> \<not> truthy od
          then (s, [(sid, MoveError ''Invalid move payload'' ''INVALID_MOVE_PAYLOAD'')])
          else (case games s gameId of
                  None \<Rightarrow> (s, [(sid, MoveError ''Game not available'' ''GAME_NOT_AVAILABLE'')])
                | Some g \<Rightarrow>
                    if isFinished g \<or> \<not> isStarted g
                    then (s, [(sid, MoveError ''Game not available'' ''GAME_NOT_AVAILABLE'')])
                    else (case getPlayerIndex g (Some od) of
                            None \<Rightarrow> (s, [(sid, MoveError ''Player not in game'' ''PLAYER_NOT_IN_GAME'')])
                          | Some idx \<Rightarrow>
                              (case moves g od of
                                 Some mv \<Rightarrow>
                                   (s, [(sid, MoveError ''Move already submitted for this round''
                                                ''MOVE_ALREADY_SUBMITTED'')])
                               | None \<Rightarrow>
                                   let mv = \<lparr> m_odId = od, m_cardId = cid, m_statValue = sv,
                                              m_cardData = (if truthyO cardData then cardData else None) \<rparr>;
                                       g1 = g\<lparr>moves := (moves g)(od \<mapsto> mv)\<rparr>;
                                       s1 = s\<lparr>games := (games s)(gameId \<mapsto> g1)\<rparr>;
                                       ack = [(sid, MoveReceived cid)];
                                       opponentOdId = getOpponentOdId g1 od;
                                       oppSocketId = (if truthyO opponentOdId
                                                      then userToSocket s1 (orEmpty opponentOdId)
                                                      else None);
                                       moved = (if truthyO oppSocketId \<and> orEmpty oppSocketId \<in> sockets s1
                                                then [(orEmpty oppSocketId, OpponentMoved)] else []);
                                       (s2, out2) = resolveRoundIfReady s1 gameId
                                   in (s2, ack @ moved @ out2))))
      | _ \<Rightarrow> (s, [(sid, MoveError ''Invalid move payload'' ''INVALID_MOVE_PAYLOAD'')]))"

subsection \<open>The event loop\<close>

text \<open>
  Events are handled one at a time, each to completion. \<open>Connection\<close> is a new socket;
  \<open>Disconnect\<close> is the transport's connection-loss event, which has left \<open>io.sockets.sockets\<close>
  when the handler runs; \<open>TimerFire\<close> is the grace period of a game's pending timer elapsing.
\<close>

datatype event =
    Connection socketId
  | Disconnect socketId
  | JoinQueue socketId odId string
  | LeaveQueue socketId
  | PlayerAccepted socketId gameId
  | JoinGame socketId gameId odId string
  | LeaveGame socketId gameId
  | SubmitMove socketId gameId odId "real option" "real option" "string option"
  | TimerFire gameId

fun step :: "state \<Rightarrow> event \<Rightarrow> state \<times> out list" where
  "step s (Connection sid) = (s\<lparr>sockets := insert sid (sockets s)\<rparr>, [])"
| "step s (Disconnect sid) = onDisconnect (s\<lparr>sockets := sockets s - {sid}\<rparr>) sid"
| "step s (JoinQueue sid od uname) = onJoinQueue s sid od uname"
| "step s (LeaveQueue sid) = onLeaveQueue s sid"
| "step s (PlayerAccepted sid gameId) = onPlayerAccepted s sid gameId"
| "step s (JoinGame sid gameId od uname) = onJoinGame s sid gameId od uname"
| "step s (LeaveGame sid gameId) = onLeaveGame s sid gameId"
| "step s (SubmitMove sid gameId od cardId statValue cardData) =
     onSubmitMove s sid gameId od cardId statValue cardData"
| "step s (TimerFire gid) = onTimerFire s gid"

text \<open>A run of events from a state: the final state and everything emitted on the way.\<close>

fun run :: "state \<Rightarrow> event list \<Rightarrow> state \<times> out list" where
  "run s [] = (s, [])"
| "run s (e # es) =
     (let (s1, out1) = step s e; (s2, out2) = run s1 es in (s2, out1 @ out2))"

inductive reachable :: "state \<Rightarrow> bool" where
  reachable_init: "reachable initialState"
| reachable_step: "reachable s \<Longrightarrow> reachable (fst (step s e))"

section \<open>Observing the emissions\<close>

text \<open>The \<open>game-ended\<close> and the \<open>round-completed\<close> payloads among a list of emissions.\<close>

fun gameEndedOf :: "out list \<Rightarrow> (socketId \<times> gameEndedPayload) list" where
  "gameEndedOf [] = []"
| "gameEndedOf ((sid, GameEnded p) # xs) = (sid, p) # gameEndedOf xs"
| "gameEndedOf (x # xs) = gameEndedOf xs"

fun roundCompletedOf :: "out list \<Rightarrow> (socketId \<times> roundCompletedPayload) list" where
  "roundCompletedOf [] = []"
| "roundCompletedOf ((sid, RoundCompleted p) # xs) = (sid, p) # roundCompletedOf xs"
| "roundCompletedOf (x # xs) = roundCompletedOf xs"

text \<open>The typed rejections among a list of emissions, each with its error code.\<close>

fun errorsOf :: "out list \<Rightarrow> (socketId \<times> string) list" where
  "errorsOf [] = []"
| "errorsOf ((sid, GameError message code gameId) # xs) = (sid, code) # errorsOf xs"
| "errorsOf ((sid, MoveError message code) # xs) = (sid, code) # errorsOf xs"
| "errorsOf (x # xs) = errorsOf xs"

section \<open>Scenarios\<close>

text \<open>
  Two clients connect on sockets \<open>s1\<close> and \<open>s2\<close>, queue as players \<open>A\<close> and \<open>B\<close> and are
  paired into the first game, whose id is \<open>uuidv4 0 = ''g''\<close>.
\<close>

definition pairing :: "event list" where
  "pairing = [Connection ''s1'', Connection ''s2'',
              JoinQueue ''s1'' ''A'' ''alice'', JoinQueue ''s2'' ''B'' ''bob'']"

definition accepting :: "event list" where
  "accepting = [PlayerAccepted ''s1'' ''g'', PlayerAccepted ''s2'' ''g'']"

text \<open>One round: A plays a card with value 85, B a card with value 60.\<close>

definition roundAB :: "real \<Rightarrow> real \<Rightarrow> event list" where
  "roundAB cardA cardB =
     [SubmitMove ''s1'' ''g'' ''A'' (Some cardA) (Some 85) None,
      SubmitMove ''s2'' ''g'' ''B'' (Some cardB) (Some 60) None]"

definition fullGame :: "event list" where
  "fullGame = pairing @ accepting @ roundAB 7 12 @ roundAB 8 13 @ roundAB 9 14
                @ roundAB 10 15 @ roundAB 11 16"

definition intruder :: event where
  "intruder = JoinGame ''s3'' ''g'' ''M'' ''mallory''"

text \<open>
  The states these scenarios pass through, written out: after the pairing, after both
  players accepted, and after A's first move of round 1.
\<close>

definition pairedGame :: game where
  "pairedGame = newGame ''g'' \<lparr> q_socketId = ''s1'', q_odId = ''A'', q_username = ''alice'' \<rparr>
                              \<lparr> q_socketId = ''s2'', q_odId = ''B'', q_username = ''bob'' \<rparr>"

definition pairedState :: state where
  "pairedState =
     \<lparr> queue = [], games = [''g'' \<mapsto> pairedGame],
       socketToUser = [''s1'' \<mapsto> ''A'', ''s2'' \<mapsto> ''B''],
       userToSocket = [''A'' \<mapsto> ''s1'', ''B'' \<mapsto> ''s2''],
       socketToGameId = [''s1'' \<mapsto> ''g'', ''s2'' \<mapsto> ''g''],
       userToGameId = [''A'' \<mapsto> ''g'', ''B'' \<mapsto> ''g''],
       sockets = {''s1'', ''s2''}, uuidCount = 1 \<rparr>"

definition startedGame :: game where
  "startedGame = pairedGame\<lparr> player0 := (player0 pairedGame)\<lparr>p_accepted := True\<rparr>,
                             player1 := (player1 pairedGame)\<lparr>p_accepted := True\<rparr>,
                             isStarted := True \<rparr>"

definition startedState :: state where
  "startedState = pairedState\<lparr> games := [''g'' \<mapsto> startedGame] \<rparr>"

definition movedGame :: game where
  "movedGame = startedGame\<lparr> moves := [''A'' \<mapsto> \<lparr> m_odId = ''A'', m_cardId = 7, m_statValue = 85,
                                                    m_cardData = None \<rparr>] \<rparr>"

definition movedState :: state where
  "movedState = startedState\<lparr> games := [''g'' \<mapsto> movedGame] \<rparr>"

section \<open>Auxiliary notions for the proofs\<close>

text \<open>The game after the disconnect handler has marked player \<open>idx\<close>.\<close>

definition markDisconnected :: "game \<Rightarrow> nat \<Rightarrow> game" where
  "markDisconnected g idx =
     (setPlayerAt g idx ((playerAt g idx)\<lparr>p_connected := False\<rparr>))
       \<lparr>disconnectedPlayerOdId := Some (p_odId (playerAt g idx)),
        disconnectTimer := Some (Timer idx True)\<rparr>"

text \<open>The game after a member's join-game has rebound slot \<open>idx\<close> to socket \<open>sid\<close>.\<close>

definition rebound :: "game \<Rightarrow> nat \<Rightarrow> socketId \<Rightarrow> string \<Rightarrow> game" where
  "rebound g idx sid uname =
     setPlayerAt g idx
       ((playerAt g idx)\<lparr>p_username := (if truthy uname then uname else p_username (playerAt g idx)),
                         p_socketId := sid, p_connected := True\<rparr>)"

text \<open>
  The invariant behind the one-way latch: a game is stored under its own id, ids come from
  the \<open>uuidv4\<close> calls made so far, and a finished game has no timer.
\<close>

definition wfState :: "state \<Rightarrow> bool" where
  "wfState s =
     (\<forall>k g. games s k = Some g \<longrightarrow>
        g_id g = k \<and> (\<exists>n < uuidCount s. k = uuidv4 n) \<and> (isFinished g \<longrightarrow> disconnectTimer g = None))"

text \<open>
  A handler that takes \<open>s\<close> to \<open>s'\<close> and emits \<open>outs\<close> keeps the invariant, leaves every
  finished game of \<open>s\<close> as it is, and emits no game-ended payload for such a game.
\<close>

definition preserves :: "state \<Rightarrow> state \<Rightarrow> out list \<Rightarrow> bool" where
  "preserves s s' outs =
     (wfState s' \<and> uuidCount s \<le> uuidCount s' \<and>
      (\<forall>k g. games s k = Some g \<longrightarrow> isFinished g \<longrightarrow>
         games s' k = Some g \<and> (\<forall>x \<in> set (gameEndedOf outs). ge_gameId (snd x) \<noteq> k)))"

text \<open>The steps of a round resolution, named for the proofs.\<close>

definition scoredGame :: "game \<Rightarrow> move \<Rightarrow> move \<Rightarrow> game" where
  "scoredGame g moveA moveB = updateUsedCards (addScore g (roundWinnerOf g moveA moveB))"

definition advanceRound :: "game \<Rightarrow> game" where
  "advanceRound g =
     (if roundNumber g \<ge> maxRounds g then g
      else g\<lparr>roundNumber := roundNumber g + 1, currentRound := getRoundInfo (roundNumber g + 1)\<rparr>)"

definition resolvedGame :: "game \<Rightarrow> move \<Rightarrow> move \<Rightarrow> game" where
  "resolvedGame g moveA moveB = (advanceRound (scoredGame g moveA moveB))\<lparr>moves := Map.empty\<rparr>"

text \<open>The payload of the round-completed notification of that resolution.\<close>

definition roundPayloadOf :: "game \<Rightarrow> move \<Rightarrow> move \<Rightarrow> roundCompletedPayload" where
  "roundPayloadOf g moveA moveB =
     \<lparr> rc_round = r_round (currentRound (advanceRound (scoredGame g moveA moveB))),
       rc_stat = r_stat (currentRound (advanceRound (scoredGame g moveA moveB))),
       rc_isGKRound = r_isGKRound (currentRound (advanceRound (scoredGame g moveA moveB))),
       rc_moves = [p_odId (player0 g) \<mapsto> moveA, p_odId (player1 g) \<mapsto> moveB],
       rc_roundWinner = roundWinnerOf g moveA moveB,
       rc_damage = 0,
       rc_scores = computeScoresFromGame (scoredGame g moveA moveB),
       rc_isGameOver = (roundNumber g \<ge> maxRounds g),
       rc_finalWinner = (if roundNumber g \<ge> maxRounds g
                         then winnerByScore (scoredGame g moveA moveB) else None),
       rc_nextRound = (if roundNumber g \<ge> maxRounds g then None
                       else Some (currentRound (advanceRound (scoredGame g moveA moveB)))) \<rparr>"

text \<open>The move record that submit-move stores, and its notice to the opponent.\<close>

definition acceptedMove :: "odId \<Rightarrow> real \<Rightarrow> real \<Rightarrow> string option \<Rightarrow> move" where
  "acceptedMove od cid sv cardData =
     \<lparr> m_odId = od, m_cardId = cid, m_statValue = sv,
       m_cardData = (if truthyO cardData then cardData else None) \<rparr>"

definition movedNotice :: "state \<Rightarrow> game \<Rightarrow> odId \<Rightarrow> out list" where
  "movedNotice s g od =
     (let opponentOdId = getOpponentOdId g od;
          oppSocketId = (if truthyO opponentOdId then userToSocket s (orEmpty opponentOdId) else None)
      in if truthyO oppSocketId \<and> orEmpty oppSocketId \<in> sockets s
         then [(orEmpty oppSocketId, OpponentMoved)] else [])"




text \<open>Queue entries and players have non-empty player ids.\<close>

definition namedState :: "state \<Rightarrow> bool" where
  "namedState s =
     ((\<forall>e \<in> set (queue s). truthy (q_odId e)) \<and>
      (\<forall>k g. games s k = Some g \<longrightarrow>
         truthy (p_odId (player0 g)) \<and> truthy (p_odId (player1 g))))"

section \<open>Further scenarios\<close>


text \<open>The game after A forfeited it right after the pairing.\<close>

definition forfeitedGame :: game where
  "forfeitedGame = pairedGame\<lparr>isFinished := True, disconnectTimer := None\<rparr>"




section \<open>Basic facts about the handlers\<close>

declare tryMatchPlayers.simps [simp del]
declare step.simps [simp del]

lemma cleanHelperMaps_frame [simp]:
  "games (cleanHelperMaps s g) = games s"
  "queue (cleanHelperMaps s g) = queue s"
  "sockets (cleanHelperMaps s g) = sockets s"
  "uuidCount (cleanHelperMaps s g) = uuidCount s"
  "socketToUser (cleanHelperMaps s g) = socketToUser s"
  "userToSocket (cleanHelperMaps s g) = userToSocket s"
  by (simp_all add: cleanHelperMaps_def)

lemma cleanHelperMaps_userToGameId:
  "userToGameId (cleanHelperMaps s g) =
     (userToGameId s)(p_odId (player0 g) := None, p_odId (player1 g) := None)"
  by (simp add: cleanHelperMaps_def)

lemma cleanHelperMaps_socketToGameId:
  "socketToGameId (cleanHelperMaps s g) sid =
     (if (truthy (p_socketId (player0 g)) \<and> sid = p_socketId (player0 g))
         \<or> (truthy (p_socketId (player1 g)) \<and> sid = p_socketId (player1 g))
      then None else socketToGameId s sid)"
  by (simp add: cleanHelperMaps_def)

lemma removeFromQueueBySocket_frame [simp]:
  "games (removeFromQueueBySocket s sid) = games s"
  "sockets (removeFromQueueBySocket s sid) = sockets s"
  "uuidCount (removeFromQueueBySocket s sid) = uuidCount s"
  "socketToUser (removeFromQueueBySocket s sid) = socketToUser s"
  "userToSocket (removeFromQueueBySocket s sid) = userToSocket s"
  "socketToGameId (removeFromQueueBySocket s sid) = socketToGameId s"
  "userToGameId (removeFromQueueBySocket s sid) = userToGameId s"
  by (simp_all add: removeFromQueueBySocket_def split: option.splits)

lemma playerAt_frame [simp]:
  "playerAt (g\<lparr>disconnectTimer := t\<rparr>) i = playerAt g i"
  "playerAt (g\<lparr>disconnectedPlayerOdId := d\<rparr>) i = playerAt g i"
  "playerAt (g\<lparr>isFinished := b\<rparr>) i = playerAt g i"
  "playerAt (g\<lparr>isStarted := b\<rparr>) i = playerAt g i"
  "playerAt (g\<lparr>moves := mvs\<rparr>) i = playerAt g i"
  "playerAt (g\<lparr>scores := sc\<rparr>) i = playerAt g i"
  "playerAt (g\<lparr>usedCards := u\<rparr>) i = playerAt g i"
  "playerAt (g\<lparr>roundNumber := n\<rparr>) i = playerAt g i"
  "playerAt (g\<lparr>currentRound := c\<rparr>) i = playerAt g i"
  by (simp_all add: playerAt_def)


lemma emitToPlayers_players:
  "p_socketId (player0 g) = p_socketId (player0 g') \<Longrightarrow>
   p_socketId (player1 g) = p_socketId (player1 g') \<Longrightarrow> sockets s = sockets s' \<Longrightarrow>
   emitToPlayers s g m = emitToPlayers s' g' m"
  by (simp add: emitToPlayers_def)

lemma gameEndedOf_append [simp]: "gameEndedOf (xs @ ys) = gameEndedOf xs @ gameEndedOf ys"
  by (induction xs rule: gameEndedOf.induct) simp_all

lemma gameEndedOf_emitToPlayers_other:
  "(\<And>p. m \<noteq> GameEnded p) \<Longrightarrow> gameEndedOf (emitToPlayers s g m) = []"
  by (cases m) (auto simp: emitToPlayers_def)

lemma gameEndedOf_emitGameState [simp]: "gameEndedOf (emitGameState s g) = []"
  by (simp add: emitGameState_def gameEndedOf_emitToPlayers_other)

lemma finishGame_absent: "games s gid = None \<Longrightarrow> finishGame s gid r w l d = (s, [])"
  by (simp add: finishGame_def)

lemma finishGame_finished:
  "games s gid = Some g \<Longrightarrow> isFinished g \<Longrightarrow> finishGame s gid r w l d = (s, [])"
  by (simp add: finishGame_def)

lemma finishGame_unfinished:
  "games s gid = Some g \<Longrightarrow> \<not> isFinished g \<Longrightarrow>
   finishGame s gid r w l d =
     (cleanHelperMaps (s\<lparr>games := (games s)(gid \<mapsto> g\<lparr>isFinished := True, disconnectTimer := None\<rparr>)\<rparr>)
        (g\<lparr>isFinished := True, disconnectTimer := None\<rparr>),
      emitToPlayers s (g\<lparr>isFinished := True\<rparr>)
        (GameEnded (gameEndedPayloadOf (g\<lparr>isFinished := True\<rparr>) r w l d)))"
  by (simp add: finishGame_def Let_def)

section \<open>The scenario states are reached by the scenarios\<close>

lemmas eval_defs = truthy_def truthyO_def orEmpty_def removeFromQueueBySocket_def matchPair_def
  newGame_def newPlayer_def maybeStartGame_def emitToPlayers_def emitGameState_def
  computeScoresFromGame_def getPlayerIndex_def getOpponentOdId_def getOpponentIndex_def
  playerAt_def setPlayerAt_def uuidv4_def initialState_def createInitialRound_def
  getRoundInfo_def roundStats_def MAX_ROUNDS_def

lemma pairedState_run: "fst (run initialState pairing) = pairedState"
  by (simp add: step.simps pairing_def pairedState_def pairedGame_def onJoinQueue_def eval_defs
        tryMatchPlayers.simps Let_def insert_commute)

lemma startedState_run: "fst (run pairedState accepting) = startedState"
  by (simp add: step.simps accepting_def startedState_def startedGame_def pairedState_def pairedGame_def
        onPlayerAccepted_def eval_defs Let_def)

lemma movedState_run: "fst (step startedState (hd (roundAB 7 12))) = movedState"
  by (simp add: step.simps roundAB_def movedState_def movedGame_def startedState_def startedGame_def
        pairedState_def pairedGame_def onSubmitMove_def resolveRoundIfReady_def eval_defs Let_def)

lemma pairedState_facts:
  "games pairedState ''g'' = Some pairedGame"
  "\<not> isStarted pairedGame" "\<not> isFinished pairedGame"
  "socketToUser pairedState ''s1'' = Some ''A''"
  "socketToGameId pairedState ''s1'' = Some ''g''"
  "truthy ''A''" "truthy ''g''"
  "getPlayerIndex pairedGame (Some ''A'') = Some 0"
  "truthy (p_socketId (playerAt pairedGame (getOpponentIndex 0)))"
  "p_socketId (playerAt pairedGame (getOpponentIndex 0)) \<in> sockets pairedState - {''s1''}"
  by (simp_all add: pairedState_def pairedGame_def newGame_def newPlayer_def truthy_def
        getPlayerIndex_def playerAt_def getOpponentIndex_def)


section \<open>Disconnect, grace timer and rejoin\<close>


lemma markDisconnected_simps [simp]:
  "isFinished (markDisconnected g idx) = isFinished g"
  "isStarted (markDisconnected g idx) = isStarted g"
  "disconnectTimer (markDisconnected g idx) = Some (Timer idx True)"
  "p_connected (playerAt (markDisconnected g idx) idx) = False"
  "p_odId (playerAt (markDisconnected g idx) i) = p_odId (playerAt g i)"
  "p_socketId (playerAt (markDisconnected g idx) i) = p_socketId (playerAt g i)"
  "p_username (playerAt (markDisconnected g idx) i) = p_username (playerAt g i)"
  "g_id (markDisconnected g idx) = g_id g"
  by (simp_all add: markDisconnected_def playerAt_def setPlayerAt_def)

lemma markDisconnected_sockets [simp]:
  "p_socketId (player0 (markDisconnected g idx)) = p_socketId (player0 g)"
  "p_socketId (player1 (markDisconnected g idx)) = p_socketId (player1 g)"
  by (simp_all add: markDisconnected_def setPlayerAt_def playerAt_def)




lemma rebound_simps [simp]:
  "isFinished (rebound g idx sid uname) = isFinished g"
  "isStarted (rebound g idx sid uname) = isStarted g"
  "disconnectTimer (rebound g idx sid uname) = disconnectTimer g"
  "p_connected (playerAt (rebound g idx sid uname) idx) = True"
  "p_odId (playerAt (rebound g idx sid uname) i) = p_odId (playerAt g i)"
  by (simp_all add: rebound_def playerAt_def setPlayerAt_def)



section \<open>The invariant of the games map\<close>

lemma uuidv4_inj [simp]: "uuidv4 m = uuidv4 n \<longleftrightarrow> m = n"
  by (simp add: uuidv4_def replicate_eq_replicate)

lemma wfState_initial: "wfState initialState"
  by (simp add: wfState_def initialState_def)

lemma preserves_refl: "wfState s \<Longrightarrow> preserves s s []"
  by (simp add: preserves_def)

lemma preserves_trans:
  "preserves s s1 out1 \<Longrightarrow> preserves s1 s2 out2 \<Longrightarrow> preserves s s2 (out1 @ out2)"
  by (fastforce simp: preserves_def)

lemma preserves_frame:
  "wfState s \<Longrightarrow> games s' = games s \<Longrightarrow> uuidCount s' = uuidCount s \<Longrightarrow>
   gameEndedOf outs = [] \<Longrightarrow> preserves s s' outs"
  by (simp add: preserves_def wfState_def)

lemma preserves_update:
  "wfState s \<Longrightarrow> games s k = Some g \<Longrightarrow> \<not> isFinished g \<Longrightarrow> g_id g' = g_id g \<Longrightarrow>
   \<not> isFinished g' \<Longrightarrow>
   games s' = (games s)(k \<mapsto> g') \<Longrightarrow> uuidCount s' = uuidCount s \<Longrightarrow>
   gameEndedOf outs = [] \<Longrightarrow> preserves s s' outs"
  by (auto simp: preserves_def wfState_def)

lemma preserves_wf: "preserves s s' outs \<Longrightarrow> wfState s'"
  by (simp add: preserves_def)

lemma gameEndedOf_emitToPlayers_ended:
  "x \<in> set (gameEndedOf (emitToPlayers s g (GameEnded p))) \<Longrightarrow> snd x = p"
  by (auto simp: emitToPlayers_def split: if_splits)

lemma gameEndedOf_emitToPlayers_simps [simp]:
  "gameEndedOf (emitToPlayers s g (GameStarted a b c)) = []"
  "gameEndedOf (emitToPlayers s g (GameState a' b' c' d')) = []"
  "gameEndedOf (emitToPlayers s g (RoundCompleted rp)) = []"
  by (simp_all add: gameEndedOf_emitToPlayers_other)

lemma ge_gameId_payload [simp]: "ge_gameId (gameEndedPayloadOf g r w l d) = g_id g"
  by (simp add: gameEndedPayloadOf_def Let_def)

lemma preserves_finishGame:
  assumes "wfState s"
  shows "preserves s (fst (finishGame s gid r w l d)) (snd (finishGame s gid r w l d))"
proof (cases "games s gid")
  case None
  then show ?thesis using assms by (simp add: finishGame_absent preserves_refl)
next
  case (Some g)
  show ?thesis
  proof (cases "isFinished g")
    case True
    then show ?thesis using Some assms by (simp add: finishGame_finished preserves_refl)
  next
    case False
    have gid: "g_id g = gid"
      using assms Some by (simp add: wfState_def)
    have "\<forall>x \<in> set (gameEndedOf (snd (finishGame s gid r w l d))). ge_gameId (snd x) = gid"
      using Some False gid
      by (auto simp: finishGame_unfinished dest!: gameEndedOf_emitToPlayers_ended)
    then show ?thesis
      using Some False assms
      by (auto simp: finishGame_unfinished preserves_def wfState_def)
  qed
qed

lemma preserves_maybeStartGame:
  assumes "wfState s"
  shows "preserves s (fst (maybeStartGame s gid)) (snd (maybeStartGame s gid))"
proof (cases "games s gid")
  case None
  then show ?thesis using assms by (simp add: maybeStartGame_def preserves_refl)
next
  case (Some g)
  show ?thesis
  proof (cases "isStarted g \<or> isFinished g \<or> \<not> (p_accepted (player0 g) \<and> p_accepted (player1 g))")
    case True
    then show ?thesis using Some assms by (auto simp: maybeStartGame_def preserves_refl)
  next
    case False
    then show ?thesis
      using Some assms
      by (intro preserves_update [where k = gid and g = g and g' = "g\<lparr>isStarted := True\<rparr>"])
         (simp_all add: maybeStartGame_def Let_def)
  qed
qed

section \<open>Round resolution, step by step\<close>

lemma addScore_frame [simp]:
  "roundNumber (addScore g w) = roundNumber g"
  "maxRounds (addScore g w) = maxRounds g"
  "isFinished (addScore g w) = isFinished g"
  "isStarted (addScore g w) = isStarted g"
  "g_id (addScore g w) = g_id g"
  "moves (addScore g w) = moves g"
  "usedCards (addScore g w) = usedCards g"
  "currentRound (addScore g w) = currentRound g"
  "disconnectTimer (addScore g w) = disconnectTimer g"
  "p_odId (player0 (addScore g w)) = p_odId (player0 g)"
  "p_odId (player1 (addScore g w)) = p_odId (player1 g)"
  "p_socketId (player0 (addScore g w)) = p_socketId (player0 g)"
  "p_socketId (player1 (addScore g w)) = p_socketId (player1 g)"
  by (simp_all add: addScore_def Let_def setPlayerAt_def playerAt_def split: option.splits)

lemma updateUsedCards_frame [simp]:
  "roundNumber (updateUsedCards g) = roundNumber g"
  "maxRounds (updateUsedCards g) = maxRounds g"
  "isFinished (updateUsedCards g) = isFinished g"
  "isStarted (updateUsedCards g) = isStarted g"
  "g_id (updateUsedCards g) = g_id g"
  "moves (updateUsedCards g) = moves g"
  "currentRound (updateUsedCards g) = currentRound g"
  "disconnectTimer (updateUsedCards g) = disconnectTimer g"
  "player0 (updateUsedCards g) = player0 g"
  "player1 (updateUsedCards g) = player1 g"
  "scores (updateUsedCards g) = scores g"
  by (simp_all add: updateUsedCards_def)

lemma scoredGame_frame [simp]:
  "roundNumber (scoredGame g a b) = roundNumber g"
  "maxRounds (scoredGame g a b) = maxRounds g"
  "isFinished (scoredGame g a b) = isFinished g"
  "isStarted (scoredGame g a b) = isStarted g"
  "g_id (scoredGame g a b) = g_id g"
  "disconnectTimer (scoredGame g a b) = disconnectTimer g"
  "p_odId (player0 (scoredGame g a b)) = p_odId (player0 g)"
  "p_odId (player1 (scoredGame g a b)) = p_odId (player1 g)"
  "p_socketId (player0 (scoredGame g a b)) = p_socketId (player0 g)"
  "p_socketId (player1 (scoredGame g a b)) = p_socketId (player1 g)"
  by (simp_all add: scoredGame_def)

lemma advanceRound_frame [simp]:
  "isFinished (advanceRound g) = isFinished g"
  "isStarted (advanceRound g) = isStarted g"
  "maxRounds (advanceRound g) = maxRounds g"
  "g_id (advanceRound g) = g_id g"
  "disconnectTimer (advanceRound g) = disconnectTimer g"
  "player0 (advanceRound g) = player0 g"
  "player1 (advanceRound g) = player1 g"
  "scores (advanceRound g) = scores g"
  "usedCards (advanceRound g) = usedCards g"
  by (simp_all add: advanceRound_def)

lemma resolvedGame_frame [simp]:
  "isFinished (resolvedGame g a b) = isFinished g"
  "isStarted (resolvedGame g a b) = isStarted g"
  "maxRounds (resolvedGame g a b) = maxRounds g"
  "g_id (resolvedGame g a b) = g_id g"
  "disconnectTimer (resolvedGame g a b) = disconnectTimer g"
  "moves (resolvedGame g a b) = Map.empty"
  "player0 (resolvedGame g a b) = player0 (scoredGame g a b)"
  "player1 (resolvedGame g a b) = player1 (scoredGame g a b)"
  "roundNumber (resolvedGame g a b) = (if roundNumber g \<ge> maxRounds g then roundNumber g else roundNumber g + 1)"
  by (simp_all add: resolvedGame_def advanceRound_def)


lemma winnerByScore_moves [simp]: "winnerByScore (g\<lparr>moves := m\<rparr>) = winnerByScore g"
  by (simp add: winnerByScore_def)

lemma resolve_absent: "games s gid = None \<Longrightarrow> resolveRoundIfReady s gid = (s, [])"
  by (simp add: resolveRoundIfReady_def)

lemma resolve_finished:
  "games s gid = Some g \<Longrightarrow> isFinished g \<Longrightarrow> resolveRoundIfReady s gid = (s, [])"
  by (simp add: resolveRoundIfReady_def)

lemma resolve_not_ready:
  "games s gid = Some g \<Longrightarrow>
   moves g (p_odId (player0 g)) = None \<or> moves g (p_odId (player1 g)) = None \<Longrightarrow>
   resolveRoundIfReady s gid = (s, [])"
  by (auto simp: resolveRoundIfReady_def split: option.splits)

lemma resolve_ready_over:
  assumes "games s gid = Some g" and "\<not> isFinished g"
    and "moves g (p_odId (player0 g)) = Some moveA"
    and "moves g (p_odId (player1 g)) = Some moveB"
    and "roundNumber g \<ge> maxRounds g"
  shows "resolveRoundIfReady s gid =
           (fst (finishGame (s\<lparr>games := (games s)(gid \<mapsto> resolvedGame g moveA moveB)\<rparr>) gid
                         ''normal'' (winnerByScore (resolvedGame g moveA moveB)) None None),
                  emitToPlayers s g (RoundCompleted (roundPayloadOf g moveA moveB))
                  @ snd (finishGame (s\<lparr>games := (games s)(gid \<mapsto> resolvedGame g moveA moveB)\<rparr>) gid
                         ''normal'' (winnerByScore (resolvedGame g moveA moveB)) None None))"
proof -
  let ?g2 = "scoredGame g moveA moveB"
  have emit: "\<And>g' m. p_socketId (player0 g') = p_socketId (player0 g) \<Longrightarrow>
                 p_socketId (player1 g') = p_socketId (player1 g) \<Longrightarrow>
                 emitToPlayers s g' m = emitToPlayers s g m"
    by (rule emitToPlayers_players) simp_all
  have adv: "advanceRound ?g2 = ?g2"
    using assms(5) by (simp add: advanceRound_def)
  have over: "maxRounds (updateUsedCards (addScore g (roundWinnerOf g moveA moveB)))
                \<le> roundNumber (updateUsedCards (addScore g (roundWinnerOf g moveA moveB)))"
    using assms(5) by simp
  have e1: "emitToPlayers s (updateUsedCards (addScore g (roundWinnerOf g moveA moveB))) =
            emitToPlayers s g"
    by (rule ext, rule emit) simp_all
  show ?thesis
    unfolding resolveRoundIfReady_def
    apply (simp only: assms(1-4) option.case prod.case if_False Let_def over if_True not_True_eq_False e1)
    apply (simp only: scoredGame_def [symmetric])
    apply (simp only: split_beta resolvedGame_def adv roundPayloadOf_def assms(5) if_True
             winnerByScore_moves)
    done
qed

lemma resolve_ready_continue:
  assumes "games s gid = Some g" and "\<not> isFinished g"
    and "moves g (p_odId (player0 g)) = Some moveA"
    and "moves g (p_odId (player1 g)) = Some moveB"
    and "roundNumber g < maxRounds g"
  shows "resolveRoundIfReady s gid =
           (s\<lparr>games := (games s)(gid \<mapsto> resolvedGame g moveA moveB)\<rparr>,
            emitToPlayers s g (RoundCompleted (roundPayloadOf g moveA moveB))
            @ emitGameState (s\<lparr>games := (games s)(gid \<mapsto> resolvedGame g moveA moveB)\<rparr>)
                (resolvedGame g moveA moveB))"
proof -
  let ?g2 = "scoredGame g moveA moveB"
  have emit: "\<And>g' m. p_socketId (player0 g') = p_socketId (player0 g) \<Longrightarrow>
                 p_socketId (player1 g') = p_socketId (player1 g) \<Longrightarrow>
                 emitToPlayers s g' m = emitToPlayers s g m"
    by (rule emitToPlayers_players) simp_all
  have adv: "?g2\<lparr>roundNumber := roundNumber ?g2 + 1,
                 currentRound := getRoundInfo (roundNumber ?g2 + 1)\<rparr> = advanceRound ?g2"
    using assms(5) by (simp add: advanceRound_def)
  have notover: "\<not> maxRounds (updateUsedCards (addScore g (roundWinnerOf g moveA moveB)))
                \<le> roundNumber (updateUsedCards (addScore g (roundWinnerOf g moveA moveB)))"
    using assms(5) by simp
  have notover': "\<not> maxRounds g \<le> roundNumber g"
    using assms(5) by simp
  have e1: "emitToPlayers s (advanceRound ?g2) = emitToPlayers s g"
    by (rule ext, rule emit) simp_all
  show ?thesis
    unfolding resolveRoundIfReady_def
    apply (simp only: assms(1-4) option.case prod.case if_False Let_def notover if_True
             not_True_eq_False not_False_eq_True)
    apply (simp only: scoredGame_def [symmetric])
    apply (simp only: adv e1 resolvedGame_def roundPayloadOf_def notover' if_False)
    done
qed

section \<open>Every handler keeps the invariant and leaves finished games alone\<close>

lemma preserves_resolve:
  assumes "wfState s"
  shows "preserves s (fst (resolveRoundIfReady s gid)) (snd (resolveRoundIfReady s gid))"
proof (cases "games s gid")
  case None
  then show ?thesis using assms by (simp add: resolve_absent preserves_refl)
next
  case (Some g)
  consider (fin) "isFinished g"
    | (wait) "\<not> isFinished g"
        "moves g (p_odId (player0 g)) = None \<or> moves g (p_odId (player1 g)) = None"
    | (ready) moveA moveB where "\<not> isFinished g"
        "moves g (p_odId (player0 g)) = Some moveA" "moves g (p_odId (player1 g)) = Some moveB"
    by (cases "moves g (p_odId (player0 g))"; cases "moves g (p_odId (player1 g))") auto
  then show ?thesis
  proof cases
    case fin
    then show ?thesis using Some assms by (simp add: resolve_finished preserves_refl)
  next
    case wait
    then show ?thesis using Some assms by (simp add: resolve_not_ready preserves_refl)
  next
    case ready
    let ?g4 = "resolvedGame g moveA moveB"
    let ?s1 = "s\<lparr>games := (games s)(gid \<mapsto> ?g4)\<rparr>"
    let ?rc = "emitToPlayers s g (RoundCompleted (roundPayloadOf g moveA moveB))"
    have upd: "preserves s ?s1 ?rc"
      using assms Some ready(1)
      by (intro preserves_update [where k = gid and g = g and g' = ?g4]) simp_all
    show ?thesis
    proof (cases "roundNumber g \<ge> maxRounds g")
      case True
      let ?f = "finishGame ?s1 gid ''normal'' (winnerByScore ?g4) None None"
      have "preserves ?s1 (fst ?f) (snd ?f)"
        using upd by (intro preserves_finishGame) (rule preserves_wf)
      with upd have "preserves s (fst ?f) (?rc @ snd ?f)"
        by (rule preserves_trans)
      then show ?thesis
        using Some ready True by (simp add: resolve_ready_over)
    next
      case False
      have "preserves ?s1 ?s1 (emitGameState ?s1 ?g4)"
        using upd by (intro preserves_frame) (simp_all add: preserves_wf)
      with upd have "preserves s ?s1 (?rc @ emitGameState ?s1 ?g4)"
        by (rule preserves_trans)
      then show ?thesis
        using Some ready False by (simp add: resolve_ready_continue)
    qed
  qed
qed

lemma preserves_matchPair:
  assumes "wfState s"
  shows "preserves s (fst (matchPair s p1 p2)) (snd (matchPair s p1 p2))"
proof -
  have fresh: "games s (uuidv4 (uuidCount s)) = None"
  proof (cases "games s (uuidv4 (uuidCount s))")
    case (Some g)
    with assms have "\<exists>n < uuidCount s. uuidv4 (uuidCount s) = uuidv4 n"
      unfolding wfState_def by blast
    then show ?thesis by simp
  qed simp
  have "wfState (fst (matchPair s p1 p2))"
    using assms
    by (auto simp: matchPair_def Let_def wfState_def newGame_def less_Suc_eq split: if_splits)
  then show ?thesis
    using fresh by (auto simp: preserves_def matchPair_def Let_def)
qed

lemma preserves_queue:
  "preserves s s' outs \<Longrightarrow> preserves s (s'\<lparr>queue := q\<rparr>) outs"
  "preserves (s\<lparr>queue := q\<rparr>) s' outs \<Longrightarrow> preserves s s' outs"
  by (simp_all add: preserves_def wfState_def)

lemma wfState_queue [simp]: "wfState (s\<lparr>queue := q\<rparr>) = wfState s"
  by (simp add: wfState_def)

lemma tryMatchPlayers_short:
  "queue s = [] \<or> (\<exists>p. queue s = [p]) \<Longrightarrow> tryMatchPlayers s = (s, [])"
  by (subst tryMatchPlayers.simps) (auto split: list.splits)

lemma tryMatchPlayers_pair:
  "queue s = p1 # p2 # rest \<Longrightarrow>
   tryMatchPlayers s =
     (fst (tryMatchPlayers ((fst (matchPair (s\<lparr>queue := rest\<rparr>) p1 p2))\<lparr>queue := rest\<rparr>)),
      snd (matchPair (s\<lparr>queue := rest\<rparr>) p1 p2)
      @ snd (tryMatchPlayers ((fst (matchPair (s\<lparr>queue := rest\<rparr>) p1 p2))\<lparr>queue := rest\<rparr>)))"
  by (subst tryMatchPlayers.simps) (simp add: split_beta)

lemma preserves_tryMatchPlayers:
  "wfState s \<Longrightarrow> preserves s (fst (tryMatchPlayers s)) (snd (tryMatchPlayers s))"
proof (induction s rule: tryMatchPlayers.induct)
  case (1 s)
  show ?case
  proof (cases "queue s")
    case Nil
    then show ?thesis using "1.prems" by (simp add: tryMatchPlayers_short preserves_refl)
  next
    case (Cons p1 rest1)
    note q1 = this
    show ?thesis
    proof (cases rest1)
      case Nil
      then show ?thesis using q1 "1.prems" by (simp add: tryMatchPlayers_short preserves_refl)
    next
      case (Cons p2 rest)
      let ?m = "matchPair (s\<lparr>queue := rest\<rparr>) p1 p2"
      let ?s1 = "(fst ?m)\<lparr>queue := rest\<rparr>"
      have "preserves (s\<lparr>queue := rest\<rparr>) (fst ?m) (snd ?m)"
        using "1.prems" by (intro preserves_matchPair) simp
      then have m: "preserves s ?s1 (snd ?m)"
        by (intro preserves_queue(1)) (rule preserves_queue(2))
      have "preserves ?s1 (fst (tryMatchPlayers ?s1)) (snd (tryMatchPlayers ?s1))"
        using m by (intro "1.IH" [OF q1 Cons refl prod.collapse]) (rule preserves_wf)
      with m have "preserves s (fst (tryMatchPlayers ?s1)) (snd ?m @ snd (tryMatchPlayers ?s1))"
        by (rule preserves_trans)
      moreover have "queue s = p1 # p2 # rest"
        using q1 Cons by simp
      ultimately show ?thesis
        by (simp add: tryMatchPlayers_pair)
    qed
  qed
qed

lemma wfState_frame [simp]:
  "wfState (s\<lparr>socketToUser := a\<rparr>) = wfState s"
  "wfState (s\<lparr>userToSocket := b\<rparr>) = wfState s"
  "wfState (s\<lparr>socketToGameId := c\<rparr>) = wfState s"
  "wfState (s\<lparr>userToGameId := d\<rparr>) = wfState s"
  "wfState (s\<lparr>sockets := e\<rparr>) = wfState s"
  "wfState (removeFromQueueBySocket s sid) = wfState s"
  by (simp_all add: wfState_def)

lemma preserves_source:
  "games s0 = games s \<Longrightarrow> uuidCount s0 = uuidCount s \<Longrightarrow>
   preserves s0 s' outs \<Longrightarrow> preserves s s' outs"
  by (simp add: preserves_def)

lemma setPlayerAt_frame [simp]:
  "g_id (setPlayerAt g idx p) = g_id g"
  "isFinished (setPlayerAt g idx p) = isFinished g"
  "isStarted (setPlayerAt g idx p) = isStarted g"
  "moves (setPlayerAt g idx p) = moves g"
  "disconnectTimer (setPlayerAt g idx p) = disconnectTimer g"
  "roundNumber (setPlayerAt g idx p) = roundNumber g"
  "maxRounds (setPlayerAt g idx p) = maxRounds g"
  by (simp_all add: setPlayerAt_def)

lemma preserves_onDisconnect:
  assumes "wfState s"
  shows "preserves s (fst (onDisconnect s sid)) (snd (onDisconnect s sid))"
  using assms
  by (auto simp: onDisconnect_def Let_def preserves_def wfState_def
           split: option.splits if_splits)

lemma preserves_onTimerFire:
  assumes "wfState s"
  shows "preserves s (fst (onTimerFire s gid)) (snd (onTimerFire s gid))"
proof (cases "games s gid")
  case None
  then show ?thesis using assms by (simp add: onTimerFire_def preserves_refl)
next
  case (Some g)
  show ?thesis
  proof (cases "disconnectTimer g")
    case None
    then show ?thesis using Some assms by (simp add: onTimerFire_def preserves_refl)
  next
    case (Some tm)
    note tm = this
    obtain idx pending where tmd: "tm = Timer idx pending" by (cases tm)
    show ?thesis
    proof (cases "pending \<and> \<not> isFinished g")
      case False
      then have "\<not> pending"
        using \<open>games s gid = Some g\<close> tm tmd assms by (auto simp: wfState_def)
      then show ?thesis
        using \<open>games s gid = Some g\<close> tm tmd assms
        by (simp add: onTimerFire_def preserves_refl)
    next
      case True
      let ?g1 = "g\<lparr>disconnectTimer := Some (Timer idx False)\<rparr>"
      let ?s1 = "s\<lparr>games := (games s)(gid \<mapsto> ?g1)\<rparr>"
      have upd: "preserves s ?s1 []"
        using assms \<open>games s gid = Some g\<close> True
        by (intro preserves_update [where k = gid and g = g and g' = ?g1]) simp_all
      show ?thesis
      proof (cases "p_connected (playerAt g idx)")
        case True
        then show ?thesis
          using upd \<open>games s gid = Some g\<close> tm tmd \<open>pending \<and> \<not> isFinished g\<close>
          by (simp add: onTimerFire_def Let_def)
      next
        case False
        let ?f = "finishGame ?s1 gid ''opponent-disconnected''
                    (Some (p_odId (playerAt g (getOpponentIndex idx))))
                    (Some (p_odId (playerAt g idx))) (Some (p_odId (playerAt g idx)))"
        have "preserves ?s1 (fst ?f) (snd ?f)"
          using upd by (intro preserves_finishGame) (rule preserves_wf)
        with upd have "preserves s (fst ?f) ([] @ snd ?f)"
          by (rule preserves_trans)
        then show ?thesis
          using False \<open>games s gid = Some g\<close> tm tmd \<open>pending \<and> \<not> isFinished g\<close>
          by (simp add: onTimerFire_def Let_def)
      qed
    qed
  qed
qed

lemma preserves_onLeaveQueue:
  "wfState s \<Longrightarrow> preserves s (fst (onLeaveQueue s sid)) (snd (onLeaveQueue s sid))"
  by (simp add: onLeaveQueue_def preserves_frame)

lemma preserves_prefix:
  "gameEndedOf pre = [] \<Longrightarrow> preserves s s' outs \<Longrightarrow> preserves s s' (pre @ outs)"
  by (simp add: preserves_def)

lemma preserves_cons:
  "gameEndedOf [x] = [] \<Longrightarrow> preserves s s' outs \<Longrightarrow> preserves s s' (x # outs)"
  using preserves_prefix [of "[x]" s s' outs] by simp

lemma preserves_onJoinQueue:
  assumes "wfState s"
  shows "preserves s (fst (onJoinQueue s sid od uname)) (snd (onJoinQueue s sid od uname))"
proof (cases "\<not> truthy od \<or> \<not> truthy uname")
  case True
  then show ?thesis using assms by (auto simp: onJoinQueue_def preserves_frame)
next
  case False
  let ?s1 = "s\<lparr>socketToUser := (socketToUser s)(sid \<mapsto> od),
               userToSocket := (userToSocket s)(od \<mapsto> sid)\<rparr>"
  let ?s2 = "removeFromQueueBySocket ?s1 sid"
  let ?s3 = "?s2\<lparr>queue := queue ?s2 @ [\<lparr> q_socketId = sid, q_odId = od, q_username = uname \<rparr>]\<rparr>"
  let ?pos = "case findIndex (\<lambda>p. q_socketId p = sid) (queue ?s3) of None \<Rightarrow> 0 | Some i \<Rightarrow> i + 1"
  have s3: "games ?s3 = games s" "uuidCount ?s3 = uuidCount s" "wfState ?s3"
    using assms by simp_all
  have "preserves ?s3 (fst (tryMatchPlayers ?s3)) (snd (tryMatchPlayers ?s3))"
    using s3(3) by (rule preserves_tryMatchPlayers)
  then have "preserves s (fst (tryMatchPlayers ?s3)) (snd (tryMatchPlayers ?s3))"
    using s3(1,2) by (rule preserves_source [rotated 2])
  then have p: "preserves s (fst (tryMatchPlayers ?s3))
               ((sid, QueueJoined ?pos (length (queue ?s3))) # snd (tryMatchPlayers ?s3))"
    by (intro preserves_cons) simp_all
  have eq: "onJoinQueue s sid od uname =
          (fst (tryMatchPlayers ?s3),
           (sid, QueueJoined ?pos (length (queue ?s3))) # snd (tryMatchPlayers ?s3))"
    unfolding onJoinQueue_def Let_def split_beta using False by (simp only: if_False)
  show ?thesis
    unfolding eq fst_conv snd_conv by (rule p)
qed

lemma preserves_update_then:
  assumes "wfState s" and "games s k = Some g" and "\<not> isFinished g"
    and "g_id g' = g_id g" and "\<not> isFinished g'"
    and "preserves (s\<lparr>games := (games s)(k \<mapsto> g')\<rparr>) s' outs"
  shows "preserves s s' outs"
proof -
  have "preserves s (s\<lparr>games := (games s)(k \<mapsto> g')\<rparr>) []"
    using assms(1-5) by (intro preserves_update [where k = k and g = g and g' = g']) simp_all
  from preserves_trans [OF this assms(6)] show ?thesis by simp
qed

lemma wfState_update:
  "wfState s \<Longrightarrow> games s k = Some g \<Longrightarrow> g_id g' = g_id g \<Longrightarrow> \<not> isFinished g' \<Longrightarrow>
   wfState (s\<lparr>games := (games s)(k \<mapsto> g')\<rparr>)"
  by (auto simp: wfState_def)

lemma preserves_onJoinGame:
  assumes "wfState s"
  shows "preserves s (fst (onJoinGame s sid gameId od uname)) (snd (onJoinGame s sid gameId od uname))"
proof (cases "truthy gameId \<and> truthy od")
  case False
  then show ?thesis using assms by (auto simp: onJoinGame_def preserves_frame)
next
  case True
  note ok = this
  show ?thesis
  proof (cases "games s gameId")
    case None
    then show ?thesis using ok assms by (simp add: onJoinGame_def preserves_frame)
  next
    case (Some g)
    note g = this
    show ?thesis
    proof (cases "isFinished g")
      case True
      then show ?thesis using ok g assms by (simp add: onJoinGame_def preserves_frame)
    next
      case False
      note nf = this
      show ?thesis
      proof (cases "getPlayerIndex g (Some od)")
        case None
        then show ?thesis
          using ok g nf assms by (simp add: onJoinGame_def Let_def preserves_frame)
      next
        case (Some idx)
        let ?g1 = "(if truthy uname
                    then setPlayerAt g idx ((playerAt g idx)\<lparr>p_username := uname\<rparr>) else g)"
        let ?g2 = "setPlayerAt ?g1 idx ((playerAt ?g1 idx)\<lparr>p_socketId := sid\<rparr>)"
        let ?g3 = "setPlayerAt ?g2 idx ((playerAt ?g2 idx)\<lparr>p_connected := True\<rparr>)"
        have g3: "g_id ?g3 = g_id g" "\<not> isFinished ?g3"
          using nf by simp_all
        have st: "games (fst (onJoinGame s sid gameId od uname)) = (games s)(gameId \<mapsto> ?g3)"
          "uuidCount (fst (onJoinGame s sid gameId od uname)) = uuidCount s"
          "gameEndedOf (snd (onJoinGame s sid gameId od uname)) = []"
          using ok g nf Some by (simp_all add: onJoinGame_def Let_def del: setPlayerAt_frame)
        show ?thesis
          using assms g nf g3 st
          by (intro preserves_update [where k = gameId and g = g and g' = ?g3])
      qed
    qed
  qed
qed

lemma onPlayerAccepted_member:
  assumes "truthy gameId" and "games s gameId = Some g" and "\<not> isFinished g"
    and "truthyO (socketToUser s sid)" and "getPlayerIndex g (socketToUser s sid) = Some idx"
  shows "onPlayerAccepted s sid gameId =
           maybeStartGame (s\<lparr>games := (games s)(gameId \<mapsto>
                               setPlayerAt g idx ((playerAt g idx)\<lparr>p_accepted := True\<rparr>))\<rparr>) gameId"
  unfolding onPlayerAccepted_def Let_def
  using assms by (simp only: not_True_eq_False if_False option.case)

lemma onPlayerAccepted_other:
  assumes "\<not> (truthy gameId \<and> (\<exists>g. games s gameId = Some g \<and> \<not> isFinished g
              \<and> getPlayerIndex g (socketToUser s sid) \<noteq> None)
              \<and> truthyO (socketToUser s sid))"
  shows "fst (onPlayerAccepted s sid gameId) = s"
    and "gameEndedOf (snd (onPlayerAccepted s sid gameId)) = []"
  using assms
  by (auto simp: onPlayerAccepted_def Let_def split: option.splits)

lemma preserves_onPlayerAccepted:
  assumes "wfState s"
  shows "preserves s (fst (onPlayerAccepted s sid gameId)) (snd (onPlayerAccepted s sid gameId))"
proof (cases "truthy gameId \<and> (\<exists>g. games s gameId = Some g \<and> \<not> isFinished g
              \<and> getPlayerIndex g (socketToUser s sid) \<noteq> None)
              \<and> truthyO (socketToUser s sid)")
  case False
  from onPlayerAccepted_other [OF this] show ?thesis
    using assms by (intro preserves_frame) simp_all
next
  case True
  then obtain g idx where g: "games s gameId = Some g" "\<not> isFinished g"
    "getPlayerIndex g (socketToUser s sid) = Some idx"
    by blast
  let ?g1 = "setPlayerAt g idx ((playerAt g idx)\<lparr>p_accepted := True\<rparr>)"
  let ?s1 = "s\<lparr>games := (games s)(gameId \<mapsto> ?g1)\<rparr>"
  have eq: "onPlayerAccepted s sid gameId = maybeStartGame ?s1 gameId"
    using True g by (intro onPlayerAccepted_member) blast+
  have g1: "g_id ?g1 = g_id g" "\<not> isFinished ?g1"
    using g(2) by simp_all
  have wf1: "wfState ?s1"
    by (rule wfState_update [OF assms g(1) g1])
  have p1: "preserves ?s1 (fst (maybeStartGame ?s1 gameId)) (snd (maybeStartGame ?s1 gameId))"
    by (rule preserves_maybeStartGame [OF wf1])
  have "preserves s (fst (maybeStartGame ?s1 gameId)) (snd (maybeStartGame ?s1 gameId))"
    by (rule preserves_update_then [OF assms g(1) g(2) g1 p1])
  then show ?thesis
    unfolding eq .
qed

lemma onLeaveGame_cases:
  "onLeaveGame s sid gameId = (s, [])
   \<or> (\<exists>w l. onLeaveGame s sid gameId = finishGame s gameId ''forfeit'' w l None)"
  by (auto simp: onLeaveGame_def Let_def split: option.splits)

lemma preserves_onLeaveGame:
  assumes "wfState s"
  shows "preserves s (fst (onLeaveGame s sid gameId)) (snd (onLeaveGame s sid gameId))"
  using onLeaveGame_cases [of s sid gameId] assms
  by (auto simp: preserves_refl preserves_finishGame)

lemma getOpponentOdId_moves [simp]: "getOpponentOdId (g\<lparr>moves := m\<rparr>) od = getOpponentOdId g od"
  by (simp add: getOpponentOdId_def getPlayerIndex_def)

lemma gameEndedOf_movedNotice [simp]: "gameEndedOf (movedNotice s g od) = []"
  by (simp add: movedNotice_def Let_def)

lemma onSubmitMove_accepted:
  assumes "truthy gameId" and "truthy od" and "games s gameId = Some g"
    and "\<not> isFinished g" and "isStarted g"
    and "getPlayerIndex g (Some od) = Some idx" and "moves g od = None"
  shows "onSubmitMove s sid gameId od (Some cid) (Some sv) cardData =
           (fst (resolveRoundIfReady
                   (s\<lparr>games := (games s)(gameId \<mapsto> g\<lparr>moves := (moves g)(od \<mapsto> acceptedMove od cid sv cardData)\<rparr>)\<rparr>)
                   gameId),
            [(sid, MoveReceived cid)] @ movedNotice s g od
            @ snd (resolveRoundIfReady
                   (s\<lparr>games := (games s)(gameId \<mapsto> g\<lparr>moves := (moves g)(od \<mapsto> acceptedMove od cid sv cardData)\<rparr>)\<rparr>)
                   gameId))"
  using assms
  by (simp add: onSubmitMove_def Let_def split_beta movedNotice_def acceptedMove_def)

lemma onSubmitMove_other:
  assumes "\<not> (cardId \<noteq> None \<and> statValue \<noteq> None \<and> truthy gameId \<and> truthy od
              \<and> (\<exists>g. games s gameId = Some g \<and> \<not> isFinished g \<and> isStarted g
                    \<and> getPlayerIndex g (Some od) \<noteq> None \<and> moves g od = None))"
  shows "fst (onSubmitMove s sid gameId od cardId statValue cardData) = s"
    and "gameEndedOf (snd (onSubmitMove s sid gameId od cardId statValue cardData)) = []"
  using assms
  by (auto simp: onSubmitMove_def split: option.splits)

lemma preserves_onSubmitMove:
  assumes "wfState s"
  shows "preserves s (fst (onSubmitMove s sid gameId od cardId statValue cardData))
           (snd (onSubmitMove s sid gameId od cardId statValue cardData))"
proof (cases "cardId \<noteq> None \<and> statValue \<noteq> None \<and> truthy gameId \<and> truthy od
              \<and> (\<exists>g. games s gameId = Some g \<and> \<not> isFinished g \<and> isStarted g
                    \<and> getPlayerIndex g (Some od) \<noteq> None \<and> moves g od = None)")
  case False
  from onSubmitMove_other [OF this] show ?thesis
    using assms by (intro preserves_frame) simp_all
next
  case True
  then obtain cid sv g idx where c: "cardId = Some cid" "statValue = Some sv"
    and ok: "truthy gameId" "truthy od"
    and g: "games s gameId = Some g" "\<not> isFinished g" "isStarted g"
      "getPlayerIndex g (Some od) = Some idx" "moves g od = None"
    by blast
  let ?g1 = "g\<lparr>moves := (moves g)(od \<mapsto> acceptedMove od cid sv cardData)\<rparr>"
  let ?s1 = "s\<lparr>games := (games s)(gameId \<mapsto> ?g1)\<rparr>"
  have eq: "onSubmitMove s sid gameId od cardId statValue cardData =
              (fst (resolveRoundIfReady ?s1 gameId),
               [(sid, MoveReceived cid)] @ movedNotice s g od @ snd (resolveRoundIfReady ?s1 gameId))"
    unfolding c by (rule onSubmitMove_accepted [OF ok g])
  have g1: "g_id ?g1 = g_id g" "\<not> isFinished ?g1"
    using g(2) by simp_all
  have wf1: "wfState ?s1"
    by (rule wfState_update [OF assms g(1) g1])
  have p1: "preserves ?s1 (fst (resolveRoundIfReady ?s1 gameId)) (snd (resolveRoundIfReady ?s1 gameId))"
    by (rule preserves_resolve [OF wf1])
  have p2: "preserves s (fst (resolveRoundIfReady ?s1 gameId)) (snd (resolveRoundIfReady ?s1 gameId))"
    by (rule preserves_update_then [OF assms g(1) g(2) g1 p1])
  have "preserves s (fst (resolveRoundIfReady ?s1 gameId))
          (([(sid, MoveReceived cid)] @ movedNotice s g od) @ snd (resolveRoundIfReady ?s1 gameId))"
    by (rule preserves_prefix [OF _ p2]) simp
  then show ?thesis
    unfolding eq fst_conv snd_conv append_assoc .
qed

lemma preserves_step:
  assumes "wfState s"
  shows "preserves s (fst (step s e)) (snd (step s e))"
proof (cases e)
  case (Connection sid)
  then show ?thesis using assms by (simp add: step.simps preserves_frame)
next
  case (Disconnect sid)
  have "wfState (s\<lparr>sockets := sockets s - {sid}\<rparr>)"
    using assms by simp
  then have "preserves (s\<lparr>sockets := sockets s - {sid}\<rparr>)
               (fst (onDisconnect (s\<lparr>sockets := sockets s - {sid}\<rparr>) sid))
               (snd (onDisconnect (s\<lparr>sockets := sockets s - {sid}\<rparr>) sid))"
    by (rule preserves_onDisconnect)
  then have "preserves s (fst (onDisconnect (s\<lparr>sockets := sockets s - {sid}\<rparr>) sid))
               (snd (onDisconnect (s\<lparr>sockets := sockets s - {sid}\<rparr>) sid))"
    by (rule preserves_source [rotated 2]) simp_all
  then show ?thesis
    unfolding Disconnect step.simps .
next
  case (JoinQueue sid od uname)
  show ?thesis unfolding JoinQueue step.simps by (rule preserves_onJoinQueue [OF assms])
next
  case (LeaveQueue sid)
  show ?thesis unfolding LeaveQueue step.simps by (rule preserves_onLeaveQueue [OF assms])
next
  case (PlayerAccepted sid gameId)
  show ?thesis unfolding PlayerAccepted step.simps by (rule preserves_onPlayerAccepted [OF assms])
next
  case (JoinGame sid gameId od uname)
  show ?thesis unfolding JoinGame step.simps by (rule preserves_onJoinGame [OF assms])
next
  case (LeaveGame sid gameId)
  show ?thesis unfolding LeaveGame step.simps by (rule preserves_onLeaveGame [OF assms])
next
  case (SubmitMove sid gameId od cardId statValue cardData)
  show ?thesis unfolding SubmitMove step.simps by (rule preserves_onSubmitMove [OF assms])
next
  case (TimerFire gid)
  show ?thesis unfolding TimerFire step.simps by (rule preserves_onTimerFire [OF assms])
qed

lemma preserves_run:
  "wfState s \<Longrightarrow> preserves s (fst (run s es)) (snd (run s es))"
proof (induction es arbitrary: s)
  case Nil
  then show ?case by (simp add: preserves_refl)
next
  case (Cons e es)
  have p1: "preserves s (fst (step s e)) (snd (step s e))"
    using Cons.prems by (rule preserves_step)
  have p2: "preserves (fst (step s e)) (fst (run (fst (step s e)) es))
              (snd (run (fst (step s e)) es))"
    by (rule Cons.IH [OF preserves_wf [OF p1]])
  have "preserves s (fst (run (fst (step s e)) es))
          (snd (step s e) @ snd (run (fst (step s e)) es))"
    by (rule preserves_trans [OF p1 p2])
  then show ?case by (simp add: split_beta)
qed

lemma reachable_wfState: "reachable s \<Longrightarrow> wfState s"
proof (induction rule: reachable.induct)
  case reachable_init
  show ?case by (rule wfState_initial)
next
  case (reachable_step s e)
  show ?case by (rule preserves_wf [OF preserves_step [OF reachable_step.IH]])
qed

lemma reachable_run: "reachable s \<Longrightarrow> reachable (fst (run s es))"
proof (induction es arbitrary: s)
  case Nil
  then show ?case by simp
next
  case (Cons e es)
  have "reachable (fst (step s e))"
    using Cons.prems by (rule reachable_step)
  then have "reachable (fst (run (fst (step s e)) es))"
    by (rule Cons.IH)
  then show ?case by (simp add: split_beta)
qed

section \<open>Scores and payloads of a resolved round\<close>


lemma roundPayloadOf_simps [simp]:
  "rc_roundWinner (roundPayloadOf g a b) = roundWinnerOf g a b"
  "rc_isGameOver (roundPayloadOf g a b) = (roundNumber g \<ge> maxRounds g)"
  "rc_finalWinner (roundPayloadOf g a b)
     = (if roundNumber g \<ge> maxRounds g then winnerByScore (scoredGame g a b) else None)"
  "rc_moves (roundPayloadOf g a b) = [p_odId (player0 g) \<mapsto> a, p_odId (player1 g) \<mapsto> b]"
  "rc_scores (roundPayloadOf g a b) = computeScoresFromGame (scoredGame g a b)"
  by (simp_all add: roundPayloadOf_def)

lemma roundCompletedOf_append [simp]:
  "roundCompletedOf (xs @ ys) = roundCompletedOf xs @ roundCompletedOf ys"
  by (induction xs rule: roundCompletedOf.induct) simp_all

lemma roundCompletedOf_emitToPlayers_other:
  "(\<And>p. m \<noteq> RoundCompleted p) \<Longrightarrow> roundCompletedOf (emitToPlayers s g m) = []"
  by (cases m) (auto simp: emitToPlayers_def)

lemma roundCompletedOf_simps [simp]:
  "roundCompletedOf (emitToPlayers s g (GameEnded p)) = []"
  "roundCompletedOf (emitGameState s g) = []"
  by (simp_all add: roundCompletedOf_emitToPlayers_other emitGameState_def)



lemma acceptedMove_simps [simp]:
  "m_statValue (acceptedMove od cid sv cd) = sv"
  "m_cardId (acceptedMove od cid sv cd) = cid"
  "m_odId (acceptedMove od cid sv cd) = od"
  by (simp_all add: acceptedMove_def)



section \<open>The wait queue\<close>



lemma queue_finishGame [simp]: "queue (fst (finishGame s gid r w l d)) = queue s"
proof (cases "games s gid")
  case None
  then show ?thesis by (simp add: finishGame_absent)
next
  case (Some g)
  then show ?thesis
    by (cases "isFinished g") (simp_all add: finishGame_finished finishGame_unfinished)
qed

lemma queue_maybeStartGame [simp]: "queue (fst (maybeStartGame s gid)) = queue s"
  by (simp add: maybeStartGame_def Let_def split: option.splits)

lemma queue_resolve [simp]: "queue (fst (resolveRoundIfReady s gid)) = queue s"
proof (cases "games s gid")
  case None
  then show ?thesis by (simp add: resolve_absent)
next
  case (Some g)
  note g = this
  show ?thesis
  proof (cases "isFinished g")
    case True
    then show ?thesis using g by (simp add: resolve_finished)
  next
    case False
    note nf = this
    show ?thesis
    proof (cases "moves g (p_odId (player0 g))")
      case None
      then show ?thesis using g by (simp add: resolve_not_ready)
    next
      case (Some moveA)
      note mA = this
      show ?thesis
      proof (cases "moves g (p_odId (player1 g))")
        case None
        then show ?thesis using g by (simp add: resolve_not_ready)
      next
        case (Some moveB)
        show ?thesis
        proof (cases "roundNumber g \<ge> maxRounds g")
          case True
          show ?thesis
            unfolding resolve_ready_over [OF g nf mA Some True] by simp
        next
          case False
          then have lt: "roundNumber g < maxRounds g" by simp
          show ?thesis
            unfolding resolve_ready_continue [OF g nf mA Some lt] by simp
        qed
      qed
    qed
  qed
qed



lemma queue_onTimerFire [simp]: "queue (fst (onTimerFire s gid)) = queue s"
  by (simp add: onTimerFire_def Let_def split: option.splits timer.splits bool.splits)

lemma queue_onPlayerAccepted [simp]: "queue (fst (onPlayerAccepted s sid gameId)) = queue s"
proof (cases "truthy gameId \<and> (\<exists>g. games s gameId = Some g \<and> \<not> isFinished g
              \<and> getPlayerIndex g (socketToUser s sid) \<noteq> None)
              \<and> truthyO (socketToUser s sid)")
  case False
  from onPlayerAccepted_other(1) [OF this] show ?thesis by simp
next
  case True
  then obtain g idx where g: "games s gameId = Some g" "\<not> isFinished g"
    "getPlayerIndex g (socketToUser s sid) = Some idx"
    by blast
  have "truthy gameId" "truthyO (socketToUser s sid)"
    using True by blast+
  from onPlayerAccepted_member [OF this(1) g(1,2) this(2) g(3)] show ?thesis by simp
qed

lemma queue_onJoinGame [simp]: "queue (fst (onJoinGame s sid gameId od uname)) = queue s"
  by (simp add: onJoinGame_def Let_def split: option.splits)

lemma queue_onLeaveGame [simp]: "queue (fst (onLeaveGame s sid gameId)) = queue s"
  using onLeaveGame_cases [of s sid gameId] by auto

lemma queue_onSubmitMove [simp]:
  "queue (fst (onSubmitMove s sid gameId od cardId statValue cardData)) = queue s"
proof (cases "cardId \<noteq> None \<and> statValue \<noteq> None \<and> truthy gameId \<and> truthy od
              \<and> (\<exists>g. games s gameId = Some g \<and> \<not> isFinished g \<and> isStarted g
                    \<and> getPlayerIndex g (Some od) \<noteq> None \<and> moves g od = None)")
  case False
  from onSubmitMove_other(1) [OF this] show ?thesis by simp
next
  case True
  then obtain cid sv g idx where c: "cardId = Some cid" "statValue = Some sv"
    and ok: "truthy gameId" "truthy od"
    and g: "games s gameId = Some g" "\<not> isFinished g" "isStarted g"
      "getPlayerIndex g (Some od) = Some idx" "moves g od = None"
    by blast
  show ?thesis
    unfolding c onSubmitMove_accepted [OF ok g] by simp
qed

section \<open>Player ids are never empty\<close>

text \<open>
  join-queue rejects an empty player id, and no handler changes the id of a player: in
  every reachable state the players of every game have non-empty ids.
\<close>

lemma namedState_initial: "namedState initialState"
  by (simp add: namedState_def initialState_def)

lemma namedState_frame:
  "namedState s \<Longrightarrow> set (queue s') \<subseteq> set (queue s) \<Longrightarrow> games s' = games s \<Longrightarrow> namedState s'"
  by (auto simp: namedState_def)

lemma namedState_update:
  "namedState s \<Longrightarrow> set (queue s') \<subseteq> set (queue s) \<Longrightarrow> games s k = Some g \<Longrightarrow>
   p_odId (player0 g') = p_odId (player0 g) \<Longrightarrow> p_odId (player1 g') = p_odId (player1 g) \<Longrightarrow>
   games s' = (games s)(k \<mapsto> g') \<Longrightarrow> namedState s'"
  by (auto simp: namedState_def)

lemma setPlayerAt_odIds:
  "p_odId p = p_odId (playerAt g idx) \<Longrightarrow>
   p_odId (player0 (setPlayerAt g idx p)) = p_odId (player0 g)
   \<and> p_odId (player1 (setPlayerAt g idx p)) = p_odId (player1 g)"
  by (simp add: setPlayerAt_def playerAt_def)

lemma splice1_subset: "set (splice1 i xs) \<subseteq> set xs"
  by (induction i xs rule: splice1.induct) auto

lemma queue_removeFromQueueBySocket_subset:
  "set (queue (removeFromQueueBySocket s sid)) \<subseteq> set (queue s)"
  by (simp add: removeFromQueueBySocket_def splice1_subset split: option.splits)

lemma games_finishGame:
  "games (fst (finishGame s gid r w l d)) =
     (case games s gid of
        None \<Rightarrow> games s
      | Some g \<Rightarrow> if isFinished g then games s
                  else (games s)(gid \<mapsto> g\<lparr>isFinished := True, disconnectTimer := None\<rparr>))"
  by (simp add: finishGame_absent finishGame_finished finishGame_unfinished split: option.splits)

lemma named_finishGame:
  assumes "namedState s"
  shows "namedState (fst (finishGame s gid r w l d))"
proof (cases "games s gid")
  case None
  then show ?thesis using assms by (simp add: finishGame_absent)
next
  case (Some g)
  show ?thesis
  proof (cases "isFinished g")
    case True
    then show ?thesis using Some assms by (simp add: finishGame_finished)
  next
    case False
    show ?thesis
      using assms _ Some
    proof (rule namedState_update)
      show "games (fst (finishGame s gid r w l d))
              = (games s)(gid \<mapsto> g\<lparr>isFinished := True, disconnectTimer := None\<rparr>)"
        using Some False by (simp add: games_finishGame)
    qed simp_all
  qed
qed

lemma named_maybeStartGame:
  assumes "namedState s"
  shows "namedState (fst (maybeStartGame s gid))"
proof (cases "games s gid")
  case None
  then show ?thesis using assms by (simp add: maybeStartGame_def)
next
  case (Some g)
  show ?thesis
  proof (cases "isStarted g \<or> isFinished g \<or> \<not> (p_accepted (player0 g) \<and> p_accepted (player1 g))")
    case True
    then show ?thesis using Some assms by (auto simp: maybeStartGame_def)
  next
    case False
    show ?thesis
      using assms _ Some
    proof (rule namedState_update)
      show "games (fst (maybeStartGame s gid)) = (games s)(gid \<mapsto> g\<lparr>isStarted := True\<rparr>)"
        using Some False by (simp add: maybeStartGame_def Let_def)
      show "set (queue (fst (maybeStartGame s gid))) \<subseteq> set (queue s)"
        by simp
    qed simp_all
  qed
qed

lemma resolvedGame_odIds [simp]:
  "p_odId (player0 (resolvedGame g a b)) = p_odId (player0 g)"
  "p_odId (player1 (resolvedGame g a b)) = p_odId (player1 g)"
  by simp_all

lemma namedState_games:
  "namedState s \<Longrightarrow> games s k = Some g \<Longrightarrow>
   p_odId (player0 g') = p_odId (player0 g) \<Longrightarrow> p_odId (player1 g') = p_odId (player1 g) \<Longrightarrow>
   namedState (s\<lparr>games := (games s)(k \<mapsto> g')\<rparr>)"
  by (auto simp: namedState_def)

lemma named_resolve:
  assumes "namedState s"
  shows "namedState (fst (resolveRoundIfReady s gid))"
proof (cases "games s gid")
  case None
  then show ?thesis using assms by (simp add: resolve_absent)
next
  case (Some g)
  note g = this
  show ?thesis
  proof (cases "isFinished g")
    case True
    then show ?thesis using g assms by (simp add: resolve_finished)
  next
    case False
    note nf = this
    show ?thesis
    proof (cases "moves g (p_odId (player0 g))")
      case None
      then show ?thesis using g assms by (simp add: resolve_not_ready)
    next
      case (Some moveA)
      note mA = this
      show ?thesis
      proof (cases "moves g (p_odId (player1 g))")
        case None
        then show ?thesis using g assms by (simp add: resolve_not_ready)
      next
        case (Some moveB)
        have n1: "namedState (s\<lparr>games := (games s)(gid \<mapsto> resolvedGame g moveA moveB)\<rparr>)"
          using assms g by (rule namedState_games) simp_all
        show ?thesis
        proof (cases "roundNumber g \<ge> maxRounds g")
          case True
          show ?thesis
            unfolding resolve_ready_over [OF g nf mA Some True] fst_conv
            using n1 by (rule named_finishGame)
        next
          case False
          then have lt: "roundNumber g < maxRounds g" by simp
          show ?thesis
            unfolding resolve_ready_continue [OF g nf mA Some lt] fst_conv
            by (rule n1)
        qed
      qed
    qed
  qed
qed

lemma named_matchPair:
  assumes "namedState s" and "truthy (q_odId p1)" and "truthy (q_odId p2)"
  shows "namedState (fst (matchPair s p1 p2))"
  using assms
  by (auto simp: namedState_def matchPair_def Let_def newGame_def newPlayer_def split: if_splits)

lemma queue_matchPair [simp]: "queue (fst (matchPair s p1 p2)) = queue s"
  by (simp add: matchPair_def Let_def)

lemma namedState_queue:
  "namedState s \<Longrightarrow> set q \<subseteq> set (queue s) \<Longrightarrow> namedState (s\<lparr>queue := q\<rparr>)"
  by (auto simp: namedState_def)

lemma named_tryMatchPlayers:
  "namedState s \<Longrightarrow> namedState (fst (tryMatchPlayers s))"
proof (induction s rule: tryMatchPlayers.induct)
  case (1 s)
  show ?case
  proof (cases "queue s")
    case Nil
    then show ?thesis using "1.prems" by (simp add: tryMatchPlayers_short)
  next
    case (Cons p1 rest1)
    note q1 = this
    show ?thesis
    proof (cases rest1)
      case Nil
      then show ?thesis using q1 "1.prems" by (simp add: tryMatchPlayers_short)
    next
      case (Cons p2 rest)
      have q: "queue s = p1 # p2 # rest"
        using q1 Cons by simp
      have tr: "truthy (q_odId p1)" "truthy (q_odId p2)"
        using "1.prems" q by (simp_all add: namedState_def)
      have n0: "namedState (s\<lparr>queue := rest\<rparr>)"
        using "1.prems" by (rule namedState_queue) (auto simp: q)
      have n1: "namedState (fst (matchPair (s\<lparr>queue := rest\<rparr>) p1 p2))"
        using n0 tr by (rule named_matchPair)
      have n2: "namedState ((fst (matchPair (s\<lparr>queue := rest\<rparr>) p1 p2))\<lparr>queue := rest\<rparr>)"
        using n1 by (rule namedState_queue) simp
      show ?thesis
        unfolding tryMatchPlayers_pair [OF q] fst_conv
        by (rule "1.IH" [OF q1 Cons refl prod.collapse n2])
    qed
  qed
qed

lemma named_onDisconnect:
  assumes "namedState s"
  shows "namedState (fst (onDisconnect s sid))"
proof -
  have "set (queue (removeFromQueueBySocket s sid)) \<subseteq> set (queue s)"
    by (rule queue_removeFromQueueBySocket_subset)
  then show ?thesis
    using assms
    by (auto simp: onDisconnect_def Let_def namedState_def setPlayerAt_def playerAt_def
             split: option.splits if_splits)
qed

lemma named_onTimerFire:
  assumes "namedState s"
  shows "namedState (fst (onTimerFire s gid))"
proof (cases "games s gid")
  case None
  then show ?thesis using assms by (simp add: onTimerFire_def)
next
  case (Some g)
  note g = this
  show ?thesis
  proof (cases "disconnectTimer g")
    case None
    then show ?thesis using g assms by (simp add: onTimerFire_def)
  next
    case (Some tm)
    obtain idx pending where tmd: "tm = Timer idx pending" by (cases tm)
    show ?thesis
    proof (cases pending)
      case False
      then show ?thesis using g Some tmd assms by (simp add: onTimerFire_def)
    next
      case True
      let ?s1 = "s\<lparr>games := (games s)(gid \<mapsto> g\<lparr>disconnectTimer := Some (Timer idx False)\<rparr>)\<rparr>"
      have n1: "namedState ?s1"
        using assms g by (rule namedState_games) simp_all
      have "fst (onTimerFire s gid) = ?s1
            \<or> (\<exists>r w l d. fst (onTimerFire s gid) = fst (finishGame ?s1 gid r w l d))"
        using g Some tmd True by (auto simp: onTimerFire_def Let_def)
      then show ?thesis
        using n1 by (auto intro: named_finishGame)
    qed
  qed
qed

lemma named_onJoinQueue:
  assumes "namedState s"
  shows "namedState (fst (onJoinQueue s sid od uname))"
proof (cases "\<not> truthy od \<or> \<not> truthy uname")
  case True
  then show ?thesis using assms by (auto simp: onJoinQueue_def)
next
  case False
  let ?s1 = "s\<lparr>socketToUser := (socketToUser s)(sid \<mapsto> od),
               userToSocket := (userToSocket s)(od \<mapsto> sid)\<rparr>"
  let ?s2 = "removeFromQueueBySocket ?s1 sid"
  let ?s3 = "?s2\<lparr>queue := queue ?s2 @ [\<lparr> q_socketId = sid, q_odId = od, q_username = uname \<rparr>]\<rparr>"
  have "set (queue ?s2) \<subseteq> set (queue s)"
    using queue_removeFromQueueBySocket_subset [of ?s1 sid] by simp
  then have "namedState ?s3"
    using assms False by (auto simp: namedState_def)
  then have "namedState (fst (tryMatchPlayers ?s3))"
    by (rule named_tryMatchPlayers)
  moreover have "fst (onJoinQueue s sid od uname) = fst (tryMatchPlayers ?s3)"
    unfolding onJoinQueue_def Let_def split_beta using False by (simp only: if_False fst_conv)
  ultimately show ?thesis by simp
qed

lemma named_onLeaveQueue:
  "namedState s \<Longrightarrow> namedState (fst (onLeaveQueue s sid))"
  unfolding onLeaveQueue_def fst_conv
  by (rule namedState_frame) (simp_all add: queue_removeFromQueueBySocket_subset)

lemma named_onPlayerAccepted:
  assumes "namedState s"
  shows "namedState (fst (onPlayerAccepted s sid gameId))"
proof (cases "truthy gameId \<and> (\<exists>g. games s gameId = Some g \<and> \<not> isFinished g
              \<and> getPlayerIndex g (socketToUser s sid) \<noteq> None)
              \<and> truthyO (socketToUser s sid)")
  case False
  from onPlayerAccepted_other(1) [OF this] show ?thesis using assms by simp
next
  case True
  then obtain g idx where g: "games s gameId = Some g" "\<not> isFinished g"
    "getPlayerIndex g (socketToUser s sid) = Some idx"
    by blast
  have ok: "truthy gameId" "truthyO (socketToUser s sid)"
    using True by blast+
  let ?g1 = "setPlayerAt g idx ((playerAt g idx)\<lparr>p_accepted := True\<rparr>)"
  have ids: "p_odId (player0 ?g1) = p_odId (player0 g)" "p_odId (player1 ?g1) = p_odId (player1 g)"
    using setPlayerAt_odIds [of "(playerAt g idx)\<lparr>p_accepted := True\<rparr>" g idx] by simp_all
  have n1: "namedState (s\<lparr>games := (games s)(gameId \<mapsto> ?g1)\<rparr>)"
    using assms g(1) ids by (rule namedState_games)
  show ?thesis
    unfolding onPlayerAccepted_member [OF ok(1) g(1,2) ok(2) g(3)]
    using n1 by (rule named_maybeStartGame)
qed

lemma named_onJoinGame:
  assumes "namedState s"
  shows "namedState (fst (onJoinGame s sid gameId od uname))"
  using assms
  by (auto simp: onJoinGame_def Let_def namedState_def setPlayerAt_def playerAt_def
           split: option.splits if_splits)

lemma named_onLeaveGame:
  assumes "namedState s"
  shows "namedState (fst (onLeaveGame s sid gameId))"
  using onLeaveGame_cases [of s sid gameId] assms
  by (auto intro: named_finishGame)

lemma named_onSubmitMove:
  assumes "namedState s"
  shows "namedState (fst (onSubmitMove s sid gameId od cardId statValue cardData))"
proof (cases "cardId \<noteq> None \<and> statValue \<noteq> None \<and> truthy gameId \<and> truthy od
              \<and> (\<exists>g. games s gameId = Some g \<and> \<not> isFinished g \<and> isStarted g
                    \<and> getPlayerIndex g (Some od) \<noteq> None \<and> moves g od = None)")
  case False
  from onSubmitMove_other(1) [OF this] show ?thesis using assms by simp
next
  case True
  then obtain cid sv g idx where c: "cardId = Some cid" "statValue = Some sv"
    and ok: "truthy gameId" "truthy od"
    and g: "games s gameId = Some g" "\<not> isFinished g" "isStarted g"
      "getPlayerIndex g (Some od) = Some idx" "moves g od = None"
    by blast
  let ?g1 = "g\<lparr>moves := (moves g)(od \<mapsto> acceptedMove od cid sv cardData)\<rparr>"
  have n1: "namedState (s\<lparr>games := (games s)(gameId \<mapsto> ?g1)\<rparr>)"
    using assms g(1) by (rule namedState_games) simp_all
  show ?thesis
    unfolding c onSubmitMove_accepted [OF ok g] fst_conv
    using n1 by (rule named_resolve)
qed

lemma named_step:
  assumes "namedState s"
  shows "namedState (fst (step s e))"
proof (cases e)
  case (Connection sid)
  show ?thesis
    unfolding Connection step.simps fst_conv
    using assms by (rule namedState_frame) simp_all
next
  case (Disconnect sid)
  have "namedState (s\<lparr>sockets := sockets s - {sid}\<rparr>)"
    using assms by (rule namedState_frame) simp_all
  then show ?thesis
    unfolding Disconnect step.simps by (rule named_onDisconnect)
next
  case (JoinQueue sid od uname)
  show ?thesis unfolding JoinQueue step.simps by (rule named_onJoinQueue [OF assms])
next
  case (LeaveQueue sid)
  show ?thesis unfolding LeaveQueue step.simps by (rule named_onLeaveQueue [OF assms])
next
  case (PlayerAccepted sid gameId)
  show ?thesis unfolding PlayerAccepted step.simps by (rule named_onPlayerAccepted [OF assms])
next
  case (JoinGame sid gameId od uname)
  show ?thesis unfolding JoinGame step.simps by (rule named_onJoinGame [OF assms])
next
  case (LeaveGame sid gameId)
  show ?thesis unfolding LeaveGame step.simps by (rule named_onLeaveGame [OF assms])
next
  case (SubmitMove sid gameId od cardId statValue cardData)
  show ?thesis unfolding SubmitMove step.simps by (rule named_onSubmitMove [OF assms])
next
  case (TimerFire gid)
  show ?thesis unfolding TimerFire step.simps by (rule named_onTimerFire [OF assms])
qed

lemma reachable_named: "reachable s \<Longrightarrow> namedState s"
proof (induction rule: reachable.induct)
  case reachable_init
  show ?case by (rule namedState_initial)
next
  case (reachable_step s e)
  show ?case by (rule named_step [OF reachable_step.IH])
qed

lemma reachable_player_ids:
  "reachable s \<Longrightarrow> games s gid = Some g \<Longrightarrow>
   truthy (p_odId (player0 g)) \<and> truthy (p_odId (player1 g))"
  using reachable_named [of s] by (simp add: namedState_def)

section \<open>Facts about the further scenarios\<close>

lemma run_snoc: "fst (run s (es @ [e])) = fst (step (fst (run s es)) e)"
  by (induction es arbitrary: s) (simp_all add: split_beta)

lemma forfeited_facts:
  "reachable (fst (run initialState (pairing @ [LeaveGame ''s1'' ''g''])))"
  "games (fst (run initialState (pairing @ [LeaveGame ''s1'' ''g'']))) ''g'' = Some forfeitedGame"
  "isFinished forfeitedGame"
proof -
  show "reachable (fst (run initialState (pairing @ [LeaveGame ''s1'' ''g''])))"
    by (rule reachable_run [OF reachable_init])
  have "step pairedState (LeaveGame ''s1'' ''g'')
          = finishGame pairedState ''g'' ''forfeit'' (Some ''B'') (Some ''A'') None"
    by (simp add: step.simps onLeaveGame_def Let_def pairedState_def pairedGame_def newGame_def
          newPlayer_def truthy_def truthyO_def orEmpty_def getPlayerIndex_def getOpponentOdId_def
          getOpponentIndex_def playerAt_def)
  then show "games (fst (run initialState (pairing @ [LeaveGame ''s1'' ''g'']))) ''g''
               = Some forfeitedGame"
    using pairedState_facts(1,3)
    by (simp add: run_snoc pairedState_run finishGame_unfinished forfeitedGame_def)
  show "isFinished forfeitedGame"
    by (simp add: forfeitedGame_def)
qed



section \<open>The reason tag of a normal completion\<close>

text \<open>
  Claim C1. The reason of the game-ended notification is to name the cause of the
  termination, and a game that ends because its final round resolved is to carry the
  normal-completion tag. The source does not do so: \<open>finishGame\<close> maps every reason other
  than \<open>opponent-disconnected\<close> to the tag \<open>forfeit\<close>, also the reason \<open>normal\<close> that
  \<open>resolveRoundIfReady\<close> passes. In the full game below nobody forfeits, all five rounds
  resolve, and both players are told \<open>forfeit\<close>.
\<close>

theorem normal_completion_tagged_forfeit:
  "map (\<lambda>(sid, p). (sid, ge_reason p, ge_winner p, ge_loser p))
       (gameEndedOf (snd (run initialState fullGame)))
   = [(''s1'', ''forfeit'', ''A'', ''B''), (''s2'', ''forfeit'', ''A'', ''B'')]"
  by code_simp

section \<open>The round metadata of the round-completed notification\<close>

text \<open>
  Claim C2. The round number, stat name and goalkeeper flag of a round-completed
  notification are to describe the round that was just resolved, and \<open>nextRound\<close> the round
  that follows. The source advances \<open>game.currentRound\<close> before it builds the payload, so
  for every round but the last the metadata is that of the next round. Below, the game is
  in round 1 (\<open>pace\<close>) when the second move arrives; the notification that the move
  triggers reports round 2 (\<open>shooting\<close>), the same round as its \<open>nextRound\<close>.
\<close>

theorem round_completed_reports_next_round:
  "map_option (\<lambda>g. (roundNumber g, r_round (currentRound g), r_stat (currentRound g)))
      (games (fst (run initialState (pairing @ accepting @ [hd (roundAB 7 12)]))) ''g'')
     = Some (1, 1, ''pace'')
   \<and> map (\<lambda>(sid, p). (sid, rc_round p, rc_stat p, rc_isGKRound p, rc_roundWinner p,
                        map_option r_round (rc_nextRound p)))
        (roundCompletedOf
           (snd (step (fst (run initialState (pairing @ accepting @ [hd (roundAB 7 12)])))
                      (last (roundAB 7 12)))))
     = [(''s1'', 2, ''shooting'', False, Some ''A'', Some 2),
        (''s2'', 2, ''shooting'', False, Some ''A'', Some 2)]"
  by code_simp

section \<open>What termination removes\<close>

text \<open>
  Claim C3 as stated does not hold. It says that after termination the session id no
  longer maps to the session object. The source never deletes from \<open>games\<close>: the object
  stays under its id with \<open>isFinished\<close> set, and every handler treats a finished game like
  a missing one. Below, A forfeits right after the pairing; both players are sent
  game-ended, and the game is still found under its id.
\<close>

theorem finished_game_stays_in_games:
  "map_option isFinished (games (fst (run initialState (pairing @ [LeaveGame ''s1'' ''g'']))) ''g'')
     = Some True
   \<and> map fst (gameEndedOf (snd (run initialState (pairing @ [LeaveGame ''s1'' ''g''])))) = [''s1'', ''s2'']"
  by code_simp

text \<open>
  Claim C3, amended: when \<open>finishGame\<close> terminates an unfinished game, the game stays in
  \<open>games\<close>, now finished and with its timer cleared; the player-to-game entries of both
  player ids and the socket-to-game entries of both slots' current sockets are removed;
  and this happens once, since any further \<open>finishGame\<close> on the game changes nothing and
  emits nothing.
\<close>

theorem finishGame_cleanup:
  assumes "games s gid = Some g" and "\<not> isFinished g"
  shows "games (fst (finishGame s gid r w l d)) gid
           = Some (g\<lparr>isFinished := True, disconnectTimer := None\<rparr>)
       \<and> userToGameId (fst (finishGame s gid r w l d)) (p_odId (player0 g)) = None
       \<and> userToGameId (fst (finishGame s gid r w l d)) (p_odId (player1 g)) = None
       \<and> (truthy (p_socketId (player0 g)) \<longrightarrow>
            socketToGameId (fst (finishGame s gid r w l d)) (p_socketId (player0 g)) = None)
       \<and> (truthy (p_socketId (player1 g)) \<longrightarrow>
            socketToGameId (fst (finishGame s gid r w l d)) (p_socketId (player1 g)) = None)
       \<and> finishGame (fst (finishGame s gid r w l d)) gid r' w' l' d'
           = (fst (finishGame s gid r w l d), [])"
proof -
  let ?g' = "g\<lparr>isFinished := True, disconnectTimer := None\<rparr>"
  let ?s' = "fst (finishGame s gid r w l d)"
  have s': "?s' = cleanHelperMaps (s\<lparr>games := (games s)(gid \<mapsto> ?g')\<rparr>) ?g'"
    using assms by (simp add: finishGame_unfinished)
  have g': "games ?s' gid = Some ?g'"
    by (simp add: s')
  have again: "finishGame ?s' gid r' w' l' d' = (?s', [])"
    using g' by (rule finishGame_finished) simp
  show ?thesis
    using g' again
    by (simp add: s' cleanHelperMaps_userToGameId cleanHelperMaps_socketToGameId)
qed

theorem finishGame_cleanup_witness:
  "games pairedState ''g'' = Some pairedGame \<and> \<not> isFinished pairedGame
   \<and> games (fst (finishGame pairedState ''g'' ''forfeit'' (Some ''B'') (Some ''A'') None)) ''g''
       = Some (pairedGame\<lparr>isFinished := True, disconnectTimer := None\<rparr>)
   \<and> userToGameId (fst (finishGame pairedState ''g'' ''forfeit'' (Some ''B'') (Some ''A'') None)) ''A'' = None
   \<and> userToGameId (fst (finishGame pairedState ''g'' ''forfeit'' (Some ''B'') (Some ''A'') None)) ''B'' = None
   \<and> socketToGameId (fst (finishGame pairedState ''g'' ''forfeit'' (Some ''B'') (Some ''A'') None)) ''s1'' = None
   \<and> socketToGameId (fst (finishGame pairedState ''g'' ''forfeit'' (Some ''B'') (Some ''A'') None)) ''s2'' = None
   \<and> finishGame (fst (finishGame pairedState ''g'' ''forfeit'' (Some ''B'') (Some ''A'') None)) ''g''
        ''normal'' None None None
       = (fst (finishGame pairedState ''g'' ''forfeit'' (Some ''B'') (Some ''A'') None), [])"
proof -
  have h1: "games pairedState ''g'' = Some pairedGame"
    by (simp add: pairedState_def)
  have h2: "\<not> isFinished pairedGame"
    by (simp add: pairedGame_def newGame_def)
  show ?thesis
    using h1 h2
      finishGame_cleanup [OF h1 h2, of "''forfeit''" "Some ''B''" "Some ''A''" None
                            "''normal''" None None None]
    by (simp add: pairedGame_def newGame_def newPlayer_def truthy_def)
qed

section \<open>Sessions per player\<close>




section \<open>Rejoining with a player id that is not a member\<close>

text \<open>
  Claim C5. A join-game that names an existing game and a player id that is not one of
  its two players is to be rejected with no state change. The source answers with the
  \<open>NOT_IN_GAME\<close> error, but only after it has bound the socket and the player id in all four
  helper maps. Below, a third client on socket \<open>s3\<close> names game \<open>g\<close> as player \<open>M\<close>.
\<close>

theorem join_game_non_member_changes_state:
  "errorsOf (snd (step (fst (run initialState (pairing @ [Connection ''s3'']))) intruder))
     = [(''s3'', ''NOT_IN_GAME'')]
   \<and> socketToUser (fst (run initialState (pairing @ [Connection ''s3'']))) ''s3'' = None
   \<and> userToSocket (fst (run initialState (pairing @ [Connection ''s3'']))) ''M'' = None
   \<and> socketToGameId (fst (run initialState (pairing @ [Connection ''s3'']))) ''s3'' = None
   \<and> userToGameId (fst (run initialState (pairing @ [Connection ''s3'']))) ''M'' = None
   \<and> socketToUser (fst (step (fst (run initialState (pairing @ [Connection ''s3'']))) intruder)) ''s3''
        = Some ''M''
   \<and> userToSocket (fst (step (fst (run initialState (pairing @ [Connection ''s3'']))) intruder)) ''M''
        = Some ''s3''
   \<and> socketToGameId (fst (step (fst (run initialState (pairing @ [Connection ''s3'']))) intruder)) ''s3''
        = Some ''g''
   \<and> userToGameId (fst (step (fst (run initialState (pairing @ [Connection ''s3'']))) intruder)) ''M''
        = Some ''g''"
  by code_simp

section \<open>Termination is a one-way latch\<close>

text \<open>
  Claim C6. The first \<open>finishGame\<close> on an unfinished game emits one game-ended payload (to
  each connected player), which carries the one ranking-point computation, and leaves the
  game finished; a further \<open>finishGame\<close> changes nothing and emits nothing. In a reachable
  state a finished game is left as it is by every run of events, whatever they are (a
  timer running, a forfeit, moves, disconnects), and no game-ended payload for its id is
  emitted again.
\<close>

theorem termination_idempotent:
  "(games s gid = Some g \<and> \<not> isFinished g \<longrightarrow>
      snd (finishGame s gid r w l d)
        = emitToPlayers s g (GameEnded (gameEndedPayloadOf (g\<lparr>isFinished := True\<rparr>) r w l d))
      \<and> (\<exists>g'. games (fst (finishGame s gid r w l d)) gid = Some g' \<and> isFinished g')
      \<and> finishGame (fst (finishGame s gid r w l d)) gid r' w' l' d'
          = (fst (finishGame s gid r w l d), []))
   \<and> (reachable s \<and> games s gid = Some g \<and> isFinished g \<longrightarrow>
        finishGame s gid r w l d = (s, [])
      \<and> games (fst (run s es)) gid = Some g
      \<and> (\<forall>x \<in> set (gameEndedOf (snd (run s es))). ge_gameId (snd x) \<noteq> gid))"
proof (intro conjI impI)
  assume a: "games s gid = Some g \<and> \<not> isFinished g"
  then have g: "games s gid = Some g" and nf: "\<not> isFinished g" by simp_all
  let ?g' = "g\<lparr>isFinished := True, disconnectTimer := None\<rparr>"
  let ?s' = "fst (finishGame s gid r w l d)"
  show "snd (finishGame s gid r w l d)
          = emitToPlayers s g (GameEnded (gameEndedPayloadOf (g\<lparr>isFinished := True\<rparr>) r w l d))"
    using g nf by (simp add: finishGame_unfinished emitToPlayers_def)
  have g': "games ?s' gid = Some ?g'"
    using g nf by (simp add: finishGame_unfinished)
  then show "\<exists>g'. games ?s' gid = Some g' \<and> isFinished g'"
    by simp
  show "finishGame ?s' gid r' w' l' d' = (?s', [])"
    using g' by (rule finishGame_finished) simp
next
  assume a: "reachable s \<and> games s gid = Some g \<and> isFinished g"
  then have g: "games s gid = Some g" and fin: "isFinished g" and wf: "wfState s"
    by (simp_all add: reachable_wfState)
  show "finishGame s gid r w l d = (s, [])"
    using g fin by (rule finishGame_finished)
  have p: "preserves s (fst (run s es)) (snd (run s es))"
    using wf by (rule preserves_run)
  show "games (fst (run s es)) gid = Some g"
    using p g fin unfolding preserves_def by blast
  show "\<forall>x \<in> set (gameEndedOf (snd (run s es))). ge_gameId (snd x) \<noteq> gid"
    using p g fin unfolding preserves_def by blast
qed

theorem termination_idempotent_witness:
  "(games pairedState ''g'' = Some pairedGame \<and> \<not> isFinished pairedGame)
   \<and> snd (finishGame pairedState ''g'' ''forfeit'' (Some ''B'') (Some ''A'') None)
       = emitToPlayers pairedState pairedGame
           (GameEnded (gameEndedPayloadOf (pairedGame\<lparr>isFinished := True\<rparr>) ''forfeit''
                         (Some ''B'') (Some ''A'') None))
   \<and> finishGame (fst (finishGame pairedState ''g'' ''forfeit'' (Some ''B'') (Some ''A'') None)) ''g''
        ''opponent-disconnected'' (Some ''A'') (Some ''B'') (Some ''B'')
       = (fst (finishGame pairedState ''g'' ''forfeit'' (Some ''B'') (Some ''A'') None), [])
   \<and> (reachable (fst (run initialState (pairing @ [LeaveGame ''s1'' ''g''])))
      \<and> games (fst (run initialState (pairing @ [LeaveGame ''s1'' ''g'']))) ''g'' = Some forfeitedGame
      \<and> isFinished forfeitedGame)
   \<and> games (fst (run (fst (run initialState (pairing @ [LeaveGame ''s1'' ''g''])))
                     [TimerFire ''g'', LeaveGame ''s2'' ''g'', Disconnect ''s2''])) ''g''
       = Some forfeitedGame
   \<and> ''g'' \<notin> set (map (ge_gameId \<circ> snd)
                    (gameEndedOf (snd (run (fst (run initialState (pairing @ [LeaveGame ''s1'' ''g''])))
                                      [TimerFire ''g'', LeaveGame ''s2'' ''g'', Disconnect ''s2'']))))"
proof -
  let ?later = "[TimerFire ''g'', LeaveGame ''s2'' ''g'', Disconnect ''s2'']"
  let ?s = "fst (run initialState (pairing @ [LeaveGame ''s1'' ''g'']))"
  have first: "snd (finishGame pairedState ''g'' ''forfeit'' (Some ''B'') (Some ''A'') None)
       = emitToPlayers pairedState pairedGame
           (GameEnded (gameEndedPayloadOf (pairedGame\<lparr>isFinished := True\<rparr>) ''forfeit''
                         (Some ''B'') (Some ''A'') None))
     \<and> finishGame (fst (finishGame pairedState ''g'' ''forfeit'' (Some ''B'') (Some ''A'') None)) ''g''
        ''opponent-disconnected'' (Some ''A'') (Some ''B'') (Some ''B'')
       = (fst (finishGame pairedState ''g'' ''forfeit'' (Some ''B'') (Some ''A'') None), [])"
    using pairedState_facts(1,3)
      termination_idempotent [of pairedState "''g''" pairedGame "''forfeit''" "Some ''B''"
        "Some ''A''" None "''opponent-disconnected''" "Some ''A''" "Some ''B''" "Some ''B''"]
    by blast
  have later: "games (fst (run ?s ?later)) ''g'' = Some forfeitedGame
     \<and> (\<forall>x \<in> set (gameEndedOf (snd (run ?s ?later))). ge_gameId (snd x) \<noteq> ''g'')"
    using forfeited_facts
      termination_idempotent [of ?s "''g''" forfeitedGame _ _ _ _ _ _ _ _ ?later]
    by blast
  then have "''g'' \<notin> set (map (ge_gameId \<circ> snd) (gameEndedOf (snd (run ?s ?later))))"
    by auto
  with first later pairedState_facts(1,3) forfeited_facts show ?thesis
    by blast
qed

section \<open>Round resolution and the end of the game\<close>



section \<open>Disconnect and rejoin in an active game\<close>



section \<open>One pending move per player\<close>

text \<open>
  Claim C9. Pending moves are kept per player id, so a player holds at most one. While a
  player holds a pending move in an active game, a further submit-move of that player is
  rejected with the error \<open>MOVE_ALREADY_SUBMITTED\<close> and the state, with the first move in
  it, is unchanged.
\<close>

theorem duplicate_move_rejected:
  assumes "games s gid = Some g" and "isStarted g" and "\<not> isFinished g"
    and "truthy gid" and "truthy od"
    and "getPlayerIndex g (Some od) = Some idx"
    and "moves g od = Some mv"
  shows "step s (SubmitMove sid gid od (Some cardId) (Some statValue) cardData)
           = (s, [(sid, MoveError ''Move already submitted for this round''
                          ''MOVE_ALREADY_SUBMITTED'')])"
  using assms by (simp add: step.simps onSubmitMove_def)

theorem duplicate_move_rejected_witness:
  "games movedState ''g'' = Some movedGame
   \<and> isStarted movedGame \<and> \<not> isFinished movedGame
   \<and> truthy ''g'' \<and> truthy ''A''
   \<and> getPlayerIndex movedGame (Some ''A'') = Some 0
   \<and> moves movedGame ''A''
       = Some \<lparr> m_odId = ''A'', m_cardId = 7, m_statValue = 85, m_cardData = None \<rparr>
   \<and> step movedState (SubmitMove ''s1'' ''g'' ''A'' (Some 9) (Some 99) None)
       = (movedState, [(''s1'', MoveError ''Move already submitted for this round''
                                  ''MOVE_ALREADY_SUBMITTED'')])"
proof -
  have h: "games movedState ''g'' = Some movedGame"
    "isStarted movedGame" "\<not> isFinished movedGame"
    "truthy ''g''" "truthy ''A''"
    "getPlayerIndex movedGame (Some ''A'') = Some 0"
    "moves movedGame ''A''
       = Some \<lparr> m_odId = ''A'', m_cardId = 7, m_statValue = 85, m_cardData = None \<rparr>"
    by (simp_all add: movedState_def movedGame_def startedState_def startedGame_def
          pairedState_def pairedGame_def newGame_def newPlayer_def truthy_def getPlayerIndex_def)
  show ?thesis
    using h duplicate_move_rejected [OF h, of "''s1''" 9 99 None]
    by simp
qed

section \<open>Disconnect before the game has started\<close>



end
